theory Spec2Isabelle
  imports Complex_Main
begin

section \<open>Exceptions and out-of-range accesses\<close>

text \<open>
  The source \<^verbatim>\<open>src/src/coordinates.cc\<close> reports failures by throwing
  \<^verbatim>\<open>std::length_error\<close> and \<^verbatim>\<open>std::runtime_error\<close>, each with a message;
  \<^verbatim>\<open>std::stod\<close> throws \<^verbatim>\<open>std::invalid_argument\<close> or \<^verbatim>\<open>std::out_of_range\<close>.
  An \<^verbatim>\<open>operator[]\<close> of \<^verbatim>\<open>std::vector\<close> or \<^verbatim>\<open>std::valarray\<close> with an index
  beyond the size is undefined behaviour; the model makes it the value
  \<open>OutOfBounds\<close>, so that every such access is a visible branch.
  A \<^verbatim>\<open>size_t\<close> is modelled by a \<open>nat\<close>. A \<^verbatim>\<open>double\<close> is modelled by a \<open>real\<close>
  with exact arithmetic where the property at stake is one of control flow, of indices
  or of the shape of a result; \<^verbatim>\<open>cartesianToSpherical\<close>, whose guard tests a computed
  double, takes the arithmetic of the doubles as a parameter.
\<close>

datatype error =
    LengthError string
  | RuntimeError string
  | InvalidArgument
  | OutOfRange
  | OutOfBounds

text \<open>Sequencing of two computations that may throw: the first error wins.\<close>

definition ebind :: "error + 'a \<Rightarrow> ('a \<Rightarrow> error + 'b) \<Rightarrow> error + 'b" where
  "ebind r f = (case r of Inl e \<Rightarrow> Inl e | Inr v \<Rightarrow> f v)"

text \<open>\<^verbatim>\<open>xs[i]\<close>, checked.\<close>

definition elem :: "'a list \<Rightarrow> nat \<Rightarrow> error + 'a" where
  "elem xs i = (if i < length xs then Inr (xs ! i) else Inl OutOfBounds)"

section \<open>Splitting a string\<close>

text \<open>
  \<^verbatim>\<open>std::getline(ss, item, delim)\<close> on the unread rest \<open>ss\<close> of a string stream:
  it fails when nothing is left to read; otherwise it extracts the characters up to
  the next delimiter (or the end), and the delimiter itself is consumed.
\<close>

definition getline :: "string \<Rightarrow> char \<Rightarrow> (string \<times> string) option" where
  "getline ss delim =
     (if ss = [] then None
      else Some (takeWhile (\<lambda>c. c \<noteq> delim) ss, drop 1 (dropWhile (\<lambda>c. c \<noteq> delim) ss)))"

lemma getline_shorter:
  "getline ss delim = Some (item, rest) \<Longrightarrow> length rest < length ss"
proof -
  assume g: "getline ss delim = Some (item, rest)"
  then have ne: "ss \<noteq> []" and r: "rest = drop 1 (dropWhile (\<lambda>c. c \<noteq> delim) ss)"
    by (auto simp: getline_def split: if_splits)
  have "length (dropWhile (\<lambda>c. c \<noteq> delim) ss) \<le> length ss"
    by (rule length_dropWhile_le)
  with ne r show ?thesis by (cases ss) auto
qed

text \<open>The \<^verbatim>\<open>while\<close> loop of \<^verbatim>\<open>split_string\<close> (lines 44-50).\<close>

function split_loop :: "string \<Rightarrow> char \<Rightarrow> bool \<Rightarrow> string list \<Rightarrow> string list" where
  "split_loop ss delim skip_empty elements =
     (case getline ss delim of
        None \<Rightarrow> elements
      | Some (item, rest) \<Rightarrow>
          if length item > 0 then split_loop rest delim skip_empty (elements @ [item])
          else if \<not> skip_empty then split_loop rest delim skip_empty (elements @ [item])
          else split_loop rest delim skip_empty elements)"
  by pat_completeness auto
termination
  by (relation "measure (\<lambda>(ss, delim, skip_empty, elements). length ss)")
     (auto dest: getline_shorter)

declare split_loop.simps [simp del]

definition split_string :: "string \<Rightarrow> char \<Rightarrow> bool \<Rightarrow> string list" where
  "split_string s delim skip_empty = split_loop s delim skip_empty []"

section \<open>Sexagesimal angles\<close>

text \<open>
  \<^verbatim>\<open>parseDmsToDegrees\<close> (lines 137-146). \<^verbatim>\<open>std::stod\<close> is a function of the
  C++ library and a parameter here. The three tokens are read with
  \<^verbatim>\<open>elements[0]\<close>, \<^verbatim>\<open>elements[1]\<close>, \<^verbatim>\<open>elements[2]\<close> whatever the size of
  \<open>elements\<close> is; the model takes the operands from left to right.
\<close>

definition parseDmsToDegrees :: "(string \<Rightarrow> error + real) \<Rightarrow> string \<Rightarrow> char \<Rightarrow> error + real" where
  "parseDmsToDegrees stod dms delimiter =
     (let elements = split_string dms delimiter True in
      if length elements > 3 then Inl (LengthError ''Wrong input format'')
      else
        ebind (elem elements 0) (\<lambda>e0. ebind (stod e0) (\<lambda>d.
        ebind (elem elements 1) (\<lambda>e1. ebind (stod e1) (\<lambda>m.
        ebind (elem elements 2) (\<lambda>e2. ebind (stod e2) (\<lambda>s.
          Inr (d + (m + s / 60) / 60))))))))"

definition parseHmsToDegrees :: "(string \<Rightarrow> error + real) \<Rightarrow> string \<Rightarrow> char \<Rightarrow> error + real" where
  "parseHmsToDegrees stod hms delimiter =
     ebind (parseDmsToDegrees stod hms delimiter) (\<lambda>deg. Inr (deg * 15))"

section \<open>Unit helpers\<close>

text \<open>
  Modelled from the spec: the constant \<^verbatim>\<open>PI\<close> comes from \<^verbatim>\<open>coordinates.hh\<close>,
  which is not among the sources; the spec has "degrees to radians (times pi/180 and
  inverse)", so it is \<open>pi\<close> here.
\<close>

definition radians :: "real \<Rightarrow> real" where
  "radians deg = pi / 180 * deg"

definition degrees :: "real \<Rightarrow> real" where
  "degrees rad = 180 / pi * rad"

definition arcsec2degrees :: "real \<Rightarrow> real" where
  "arcsec2degrees angle = angle / 3600"

definition arcmin2degrees :: "real \<Rightarrow> real" where
  "arcmin2degrees angle = angle / 60"

section \<open>Vectors and matrices\<close>

text \<open>
  Modelled from the spec: the type \<^verbatim>\<open>valarray2d\<close> is declared in
  \<^verbatim>\<open>coordinates.hh\<close>; the spec has "an ordered sequence of rows, each an ordered
  sequence of reals", and the source builds one with
  \<^verbatim>\<open>valarray2d(std::valarray<double>(m), n)\<close>, which is \<open>n\<close> copies of a row of \<open>m\<close>
  zeros.
\<close>

type_synonym valarray = "real list"
type_synonym valarray2d = "real list list"

text \<open>\<^verbatim>\<open>A[i][j]\<close> read, \<^verbatim>\<open>v[i] = x\<close> and \<^verbatim>\<open>A[i][j] = x\<close> written, all checked.\<close>

definition elem2 :: "valarray2d \<Rightarrow> nat \<Rightarrow> nat \<Rightarrow> error + real" where
  "elem2 A i j = ebind (elem A i) (\<lambda>row. elem row j)"

definition store1 :: "'a list \<Rightarrow> nat \<Rightarrow> 'a \<Rightarrow> error + 'a list" where
  "store1 v i x = (if i < length v then Inr (v[i := x]) else Inl OutOfBounds)"

definition store2 :: "valarray2d \<Rightarrow> nat \<Rightarrow> nat \<Rightarrow> real \<Rightarrow> error + valarray2d" where
  "store2 A i j x =
     ebind (elem A i) (\<lambda>row. ebind (store1 row j x) (\<lambda>row'. Inr (A[i := row'])))"

text \<open>A straight-line sequence of assignments, in the order of the source.\<close>

fun stores1 :: "'a list \<Rightarrow> (nat \<times> 'a) list \<Rightarrow> error + 'a list" where
  "stores1 v [] = Inr v"
| "stores1 v ((i, x) # rest) = ebind (store1 v i x) (\<lambda>v'. stores1 v' rest)"

fun stores2 :: "valarray2d \<Rightarrow> (nat \<times> nat \<times> real) list \<Rightarrow> error + valarray2d" where
  "stores2 A [] = Inr A"
| "stores2 A ((i, j, x) # rest) = ebind (store2 A i j x) (\<lambda>A'. stores2 A' rest)"

text \<open>
  \<^verbatim>\<open>for (size_t i = lo; i < n; ++i) body\<close> over a state \<open>s\<close>; an error in the body ends
  the loop.
\<close>

function for_loop :: "nat \<Rightarrow> nat \<Rightarrow> (nat \<Rightarrow> 's \<Rightarrow> error + 's) \<Rightarrow> 's \<Rightarrow> error + 's" where
  "for_loop i n body s =
     (if i < n then (case body i s of Inl e \<Rightarrow> Inl e | Inr s' \<Rightarrow> for_loop (Suc i) n body s')
      else Inr s)"
  by pat_completeness auto
termination
  by (relation "measure (\<lambda>(i, n, body, s). n - i)") auto

declare for_loop.simps [simp del]

text \<open>\<^verbatim>\<open>dot(valarray, valarray)\<close> (lines 168-176).\<close>

definition dot_vv :: "valarray \<Rightarrow> valarray \<Rightarrow> error + real" where
  "dot_vv x y =
     (if length x \<noteq> length y then Inl (LengthError ''Illegal vector dimensions.'')
      else for_loop 0 (length x)
             (\<lambda>i sum. ebind (elem x i) (\<lambda>xi. ebind (elem y i) (\<lambda>yi. Inr (sum + xi * yi)))) 0)"

text \<open>\<^verbatim>\<open>transpose\<close> (lines 184-192).\<close>

definition transpose_va :: "valarray2d \<Rightarrow> error + valarray2d" where
  "transpose_va A =
     (let m = length A in
      ebind (elem A 0) (\<lambda>A0.
        let n = length A0;
            C = replicate n (replicate m 0)
        in for_loop 0 m (\<lambda>i.
             for_loop 0 n (\<lambda>j C.
               ebind (elem2 A i j) (\<lambda>a. store2 C j i a))) C))"

text \<open>
  \<^verbatim>\<open>dot(valarray2d, valarray2d)\<close> (lines 201-213). The statement of the innermost
  loop, \<^verbatim>\<open>C[i][j] += A[i][k] * B[k][j]\<close>, comes first. The result \<open>C\<close> is built as
  \<^verbatim>\<open>valarray2d(std::valarray<double>(mA), nB)\<close>: \<open>nB\<close> rows of \<open>mA\<close> zeros.
\<close>

definition dot_mm_update ::
  "valarray2d \<Rightarrow> valarray2d \<Rightarrow> nat \<Rightarrow> nat \<Rightarrow> nat \<Rightarrow> valarray2d \<Rightarrow> error + valarray2d" where
  "dot_mm_update A B i j k C =
     ebind (elem2 A i k) (\<lambda>a.
     ebind (elem2 B k j) (\<lambda>b.
     ebind (elem2 C i j) (\<lambda>c.
       store2 C i j (c + a * b))))"

definition dot_mm :: "valarray2d \<Rightarrow> valarray2d \<Rightarrow> error + valarray2d" where
  "dot_mm A B =
     (let mA = length A in
      ebind (elem A 0) (\<lambda>A0.
        let nA = length A0;
            mB = length B
        in ebind (elem B 0) (\<lambda>B0.
          let nB = length B0 in
          if nA \<noteq> mB then Inl (LengthError ''Illegal matrix dimensions.'')
          else
            let C = replicate nB (replicate mA 0)
            in for_loop 0 mA (\<lambda>i.
                 for_loop 0 nB (\<lambda>j.
                   for_loop 0 nA (\<lambda>k. dot_mm_update A B i j k))) C)))"

text \<open>\<^verbatim>\<open>dot(valarray2d, valarray)\<close> (lines 222-233).\<close>

definition dot_mv :: "valarray2d \<Rightarrow> valarray \<Rightarrow> error + valarray" where
  "dot_mv A x =
     (let m = length A in
      ebind (elem A 0) (\<lambda>A0.
        let n = length A0 in
        if length x \<noteq> n then Inl (LengthError ''Illegal matrix dimensions.'')
        else
          for_loop 0 m (\<lambda>i.
            for_loop 0 n (\<lambda>j y.
              ebind (elem2 A i j) (\<lambda>a.
              ebind (elem x j) (\<lambda>xj.
              ebind (elem y i) (\<lambda>yi.
                store1 y i (yi + a * xj)))))) (replicate m 0)))"

text \<open>\<^verbatim>\<open>dot(valarray, valarray2d)\<close> (lines 243-254).\<close>

definition dot_vm :: "valarray \<Rightarrow> valarray2d \<Rightarrow> error + valarray" where
  "dot_vm x A =
     (let m = length A in
      ebind (elem A 0) (\<lambda>A0.
        let n = length A0 in
        if length x \<noteq> m then Inl (LengthError ''Illegal matrix dimensions.'')
        else
          for_loop 0 n (\<lambda>j.
            for_loop 0 m (\<lambda>i y.
              ebind (elem2 A i j) (\<lambda>a.
              ebind (elem x i) (\<lambda>xi.
              ebind (elem y j) (\<lambda>yj.
                store1 y j (yj + a * xi)))))) (replicate n 0)))"

text \<open>
  A well-formed dense matrix with \<open>m\<close> rows and \<open>n\<close> columns ("all rows equal length"),
  and the standard product in the words of the spec: the entry in row \<open>i\<close> and column
  \<open>j\<close> is the sum over \<open>k\<close> of \<open>A[i][k] * B[k][j]\<close>, for the \<open>mA\<close> rows of \<open>A\<close> and the
  \<open>nB\<close> columns of \<open>B\<close>.
\<close>

definition is_matrix :: "valarray2d \<Rightarrow> nat \<Rightarrow> nat \<Rightarrow> bool" where
  "is_matrix A m n = (length A = m \<and> list_all (\<lambda>row. length row = n) A)"

definition matrix_product :: "valarray2d \<Rightarrow> valarray2d \<Rightarrow> valarray2d" where
  "matrix_product A B =
     map (\<lambda>i. map (\<lambda>j. \<Sum>k<length B. A ! i ! k * B ! k ! j) [0..<length (B ! 0)])
       [0..<length A]"

text \<open>The sum of the first \<open>n\<close> products of the entry in row \<open>i\<close> and column \<open>j\<close>.\<close>

definition dot_entry :: "valarray2d \<Rightarrow> valarray2d \<Rightarrow> nat \<Rightarrow> nat \<Rightarrow> nat \<Rightarrow> real" where
  "dot_entry A B i j n = (\<Sum>k<n. A ! i ! k * B ! k ! j)"

section \<open>Rotation matrices\<close>

text \<open>
  \<^verbatim>\<open>elementaryRotationMatrix\<close> (lines 265-304): a 3 by 3 matrix of zeros, nine
  assignments in the branch of the axis, and no branch for any other axis.
\<close>

definition elementaryRotationMatrix :: "string \<Rightarrow> real \<Rightarrow> error + valarray2d" where
  "elementaryRotationMatrix axis angle =
     (let mat = replicate 3 (replicate 3 0) in
      if axis = ''x'' \<or> axis = ''X'' then
        stores2 mat
          [(0, 0, 1), (0, 1, 0), (0, 2, 0),
           (1, 0, 0), (1, 1, cos angle), (1, 2, sin angle),
           (2, 0, 0), (2, 1, - sin angle), (2, 2, cos angle)]
      else if axis = ''y'' \<or> axis = ''Y'' then
        stores2 mat
          [(0, 0, cos angle), (0, 1, 1), (0, 2, - sin angle),
           (1, 0, 0), (1, 1, 1), (1, 2, 0),
           (2, 0, sin angle), (2, 1, 0), (2, 2, cos angle)]
      else if axis = ''z'' \<or> axis = ''Z'' then
        stores2 mat
          [(0, 0, cos angle), (0, 1, sin angle), (0, 2, 0),
           (1, 0, - sin angle), (1, 1, cos angle), (1, 2, 0),
           (2, 0, 0), (2, 1, 0), (2, 2, 1)]
      else Inr mat)"

text \<open>
  The conventional elementary rotations, in the words of the spec: the rotation about
  x has the rows \<open>[1,0,0]\<close>, \<open>[0,cos a,sin a]\<close>, \<open>[0,-sin a,cos a]\<close>; the rotation
  about y has the identity as second row and column, the one about z as third row and
  column, with the same layout of cosine and sine.
\<close>

definition conventionalRotation :: "string \<Rightarrow> real \<Rightarrow> valarray2d" where
  "conventionalRotation axis a =
     (if axis = ''x'' \<or> axis = ''X'' then
        [[1, 0, 0], [0, cos a, sin a], [0, - sin a, cos a]]
      else if axis = ''y'' \<or> axis = ''Y'' then
        [[cos a, 0, - sin a], [0, 1, 0], [sin a, 0, cos a]]
      else
        [[cos a, sin a, 0], [- sin a, cos a, 0], [0, 0, 1]])"

text \<open>
  Modelled from the spec: the six matrices \<^verbatim>\<open>_rotationMatrixGalacticToIcrs\<close> ...
  \<^verbatim>\<open>_rotationMatrixEclipticToGalactic\<close> are constants of \<^verbatim>\<open>coordinates.hh\<close>, which
  is not among the sources. They are parameters of the model.
\<close>

record rotation_matrices =
  rotationMatrixGalacticToIcrs :: valarray2d
  rotationMatrixIcrsToGalactic :: valarray2d
  rotationMatrixEclipticToIcrs :: valarray2d
  rotationMatrixIcrsToEcliptic :: valarray2d
  rotationMatrixGalacticToEcliptic :: valarray2d
  rotationMatrixEclipticToGalactic :: valarray2d

text \<open>\<^verbatim>\<open>toupper\<close> of the C library, in the C locale.\<close>

definition toupper :: "char \<Rightarrow> char" where
  "toupper c =
     (if (97::nat) \<le> of_char c \<and> of_char c \<le> (122::nat)
      then char_of (of_char c - (32::nat)) else c)"

text \<open>\<^verbatim>\<open>_get_rotationMatrix\<close> (lines 313-330).\<close>

definition get_rotationMatrix :: "rotation_matrices \<Rightarrow> string \<Rightarrow> error + valarray2d" where
  "get_rotationMatrix K name =
     (let NAME = map toupper name in
      if NAME = ''GAL2ICRS'' then Inr (rotationMatrixGalacticToIcrs K)
      else if NAME = ''ICRS2GAL'' then Inr (rotationMatrixIcrsToGalactic K)
      else if NAME = ''ECL2ICRS'' then Inr (rotationMatrixEclipticToIcrs K)
      else if NAME = ''ICRS2ECL'' then Inr (rotationMatrixIcrsToEcliptic K)
      else if NAME = ''GAL2ECL'' then Inr (rotationMatrixGalacticToEcliptic K)
      else if NAME = ''ECL2GAL'' then Inr (rotationMatrixEclipticToGalactic K)
      else Inl (RuntimeError ''Connot find this transformation name''))"

section \<open>Spherical and Cartesian coordinates\<close>

text \<open>
  The angle of the point \<open>(x, y)\<close> in exact arithmetic, in \<open>(-pi, pi]\<close>, and 0 at the
  origin. The \<^verbatim>\<open>atan2\<close> of the C library rounds this to a double and tells the two
  zeros apart (\<^verbatim>\<open>atan2(-0.0, -1.0)\<close> is \<open>-pi\<close>); it is a parameter wherever a property
  depends on the arithmetic of doubles.
\<close>

definition atan2 :: "real \<Rightarrow> real \<Rightarrow> real" where
  "atan2 y x =
     (if 0 < x then arctan (y / x)
      else if x < 0 then (if 0 \<le> y then arctan (y / x) + pi else arctan (y / x) - pi)
      else if 0 < y then pi / 2
      else if y < 0 then - (pi / 2)
      else 0)"

text \<open>\<^verbatim>\<open>sphericalToCartesian\<close> (lines 344-355).\<close>

definition sphericalToCartesian :: "real \<Rightarrow> real \<Rightarrow> real \<Rightarrow> error + valarray" where
  "sphericalToCartesian r phi theta =
     (let ctheta = cos theta;
          x = r * cos phi * ctheta;
          y = r * sin phi * ctheta;
          z = r * sin theta
      in stores1 (replicate 3 0) [(0, x), (1, y), (2, z)])"

text \<open>
  \<^verbatim>\<open>cartesianToSpherical\<close> (lines 370-379). Its guard \<^verbatim>\<open>r == 0.\<close> is a test on a
  computed double, so the function is modelled over the operations on doubles it uses:
  the value of a fresh \<^verbatim>\<open>valarray\<close> entry, \<^verbatim>\<open>*\<close>, \<^verbatim>\<open>+\<close>, \<^verbatim>\<open>sqrt\<close>, \<^verbatim>\<open>atan2\<close> and the
  comparison with zero. Any type \<open>'d\<close> of doubles and any operations on it can take
  their place, the doubles of the machine with their infinities, their two zeros and
  their rounding included.
\<close>

record 'd double_arith =
  d_zero :: "'d"
  d_mul :: "'d \<Rightarrow> 'd \<Rightarrow> 'd"
  d_add :: "'d \<Rightarrow> 'd \<Rightarrow> 'd"
  d_sqrt :: "'d \<Rightarrow> 'd"
  d_atan2 :: "'d \<Rightarrow> 'd \<Rightarrow> 'd"
  d_is_zero :: "'d \<Rightarrow> bool"

definition cartesianToSpherical :: "'d double_arith \<Rightarrow> 'd \<Rightarrow> 'd \<Rightarrow> 'd \<Rightarrow> error + 'd list" where
  "cartesianToSpherical D x y z =
     (let rCylSq = d_add D (d_mul D x x) (d_mul D y y);
          r = d_sqrt D (d_add D rCylSq (d_mul D z z))
      in if d_is_zero D r then Inl (RuntimeError ''Error: point is at distance zero.'')
         else stores1 (replicate 3 (d_zero D))
                [(0, r), (1, d_atan2 D y x), (2, d_atan2 D z (d_sqrt D rCylSq))])"

text \<open>Exact arithmetic: the reals with their own operations.\<close>

definition exact_arith :: "real double_arith" where
  "exact_arith =
     \<lparr>d_zero = 0, d_mul = (\<lambda>x y. x * y), d_add = (\<lambda>x y. x + y), d_sqrt = sqrt,
      d_atan2 = atan2, d_is_zero = (\<lambda>r. r = 0)\<rparr>"

text \<open>
  The finite doubles of IEEE 754 (binary64), each as the real number it denotes, so that
  both zeros are the real 0. A real is rounded to the nearest double, ties to the even
  significand: below \<open>2 ^ -1022\<close> the doubles are the multiples of \<open>2 ^ -1074\<close>, from
  there on a double has 53 significant bits. No result is made infinite: the rounding
  is the machine's for results up to the largest double. Multiplication, addition and
  square root are the exact operation, rounded, as IEEE 754 has them; \<^verbatim>\<open>atan2\<close> is taken
  rounded in the same way.
\<close>

definition round_even :: "real \<Rightarrow> int" where
  "round_even x =
     (let f = \<lfloor>x\<rfloor>;
          d = x - of_int f
      in if d < 1 / 2 then f
         else if 1 / 2 < d then f + 1
         else if even f then f else f + 1)"

definition round64 :: "real \<Rightarrow> real" where
  "round64 x =
     (if \<bar>x\<bar> < 1 / 2 ^ 1022 then of_int (round_even (x * 2 ^ 1074)) / 2 ^ 1074
      else
        (let e = \<lfloor>log 2 \<bar>x\<bar>\<rfloor>;
             q = 2 powr (of_int e - 52)
         in of_int (round_even (x / q)) * q))"

definition binary64_arith :: "real double_arith" where
  "binary64_arith =
     \<lparr>d_zero = 0,
      d_mul = (\<lambda>x y. round64 (x * y)),
      d_add = (\<lambda>x y. round64 (x + y)),
      d_sqrt = (\<lambda>x. round64 (sqrt x)),
      d_atan2 = (\<lambda>y x. round64 (atan2 y x)),
      d_is_zero = (\<lambda>r. r = 0)\<rparr>"

text \<open>
  \<^verbatim>\<open>apply_transformation\<close> (lines 391-414), in exact arithmetic like the rest of the
  pipeline.
\<close>

definition apply_transformation ::
  "rotation_matrices \<Rightarrow> string \<Rightarrow> real \<Rightarrow> real \<Rightarrow> bool \<Rightarrow> error + valarray" where
  "apply_transformation K name phi theta use_degrees =
     (let r = 1 in
      ebind (if use_degrees then sphericalToCartesian r (radians phi) (radians theta)
             else sphericalToCartesian r phi theta) (\<lambda>xyz.
      ebind (get_rotationMatrix K name) (\<lambda>mat.
      ebind (dot_mv mat xyz) (\<lambda>xyzrot.
      ebind (elem xyzrot 0) (\<lambda>x0.
      ebind (elem xyzrot 1) (\<lambda>x1.
      ebind (elem xyzrot 2) (\<lambda>x2.
      ebind (cartesianToSpherical exact_arith x0 x1 x2) (\<lambda>rab.
      ebind (elem rab 1) (\<lambda>a.
      ebind (elem rab 2) (\<lambda>b.
        if use_degrees then stores1 (replicate 2 0) [(0, degrees a), (1, degrees b)]
        else stores1 (replicate 2 0) [(0, a), (1, b)]))))))))))"

text \<open>
  The composition that the round-trip properties are about: \<^verbatim>\<open>cartesianToSpherical\<close>
  applied to the three components of \<^verbatim>\<open>sphericalToCartesian(1, phi, theta)\<close>, in exact
  arithmetic.
\<close>

definition round_trip :: "real \<Rightarrow> real \<Rightarrow> error + valarray" where
  "round_trip phi theta =
     ebind (sphericalToCartesian 1 phi theta) (\<lambda>v.
     ebind (elem v 0) (\<lambda>x. ebind (elem v 1) (\<lambda>y. ebind (elem v 2) (\<lambda>z.
       cartesianToSpherical exact_arith x y z))))"

text \<open>
  Steps 2 to 6 of the spec's \<open>applyTransformation\<close>, for a matrix that is given: "convert
  input angles to radians if useDegrees is set", "build unit Cartesian vector via
  sphericalToCartesian(1, phi, theta)", "multiply the fixed 3 by 3 matrix by the Cartesian
  vector", "convert the rotated vector back to spherical via cartesianToSpherical, discard
  the radius", "convert outputs back to degrees if useDegrees was set".
\<close>

definition transform_with :: "valarray2d \<Rightarrow> real \<Rightarrow> real \<Rightarrow> bool \<Rightarrow> error + valarray" where
  "transform_with mat phi theta use_degrees =
     ebind (sphericalToCartesian 1 (if use_degrees then radians phi else phi)
              (if use_degrees then radians theta else theta)) (\<lambda>xyz.
     ebind (dot_mv mat xyz) (\<lambda>w.
     ebind (elem w 0) (\<lambda>x. ebind (elem w 1) (\<lambda>y. ebind (elem w 2) (\<lambda>z.
     ebind (cartesianToSpherical exact_arith x y z) (\<lambda>rab.
     ebind (elem rab 1) (\<lambda>a. ebind (elem rab 2) (\<lambda>b.
       Inr (if use_degrees then [degrees a, degrees b] else [a, b])))))))))"

text \<open>
  A sample of the six constants, for evaluating the model: quarter turns, the three pairs
  transposes of each other, each matrix different from the other five.
\<close>

definition sample_matrices :: rotation_matrices where
  "sample_matrices =
     \<lparr>rotationMatrixGalacticToIcrs = [[0, - 1, 0], [1, 0, 0], [0, 0, 1]],
      rotationMatrixIcrsToGalactic = [[0, 1, 0], [- 1, 0, 0], [0, 0, 1]],
      rotationMatrixEclipticToIcrs = [[1, 0, 0], [0, 0, - 1], [0, 1, 0]],
      rotationMatrixIcrsToEcliptic = [[1, 0, 0], [0, 0, 1], [0, - 1, 0]],
      rotationMatrixGalacticToEcliptic = [[0, - 1, 0], [0, 0, 1], [- 1, 0, 0]],
      rotationMatrixEclipticToGalactic = [[0, 0, - 1], [- 1, 0, 0], [0, 1, 0]]\<rparr>"

section \<open>The splitter\<close>

lemma getline_token:
  "delim \<notin> set t \<Longrightarrow> getline (t @ delim # s) delim = Some (t, s)"
proof -
  assume "delim \<notin> set t"
  then have all: "\<forall>c\<in>set t. c \<noteq> delim" by auto
  then have "takeWhile (\<lambda>c. c \<noteq> delim) (t @ delim # s) = t"
    by (simp add: takeWhile_tail)
  moreover from all have "dropWhile (\<lambda>c. c \<noteq> delim) (t @ delim # s) = delim # s"
    by simp
  ultimately show ?thesis by (simp add: getline_def)
qed

lemma getline_last:
  "delim \<notin> set t \<Longrightarrow> t \<noteq> [] \<Longrightarrow> getline t delim = Some (t, [])"
proof -
  assume "delim \<notin> set t" and ne: "t \<noteq> []"
  then have all: "\<forall>c\<in>set t. c \<noteq> delim" by auto
  then have tw: "takeWhile (\<lambda>c. c \<noteq> delim) t = t"
    and dw: "dropWhile (\<lambda>c. c \<noteq> delim) t = []"
    by simp_all
  show ?thesis unfolding getline_def tw dw using ne by simp
qed

lemma getline_Nil: "getline [] delim = None"
  by (simp add: getline_def)

text \<open>The loop only appends to the tokens it has collected.\<close>

lemma split_loop_acc:
  "split_loop ss delim skip_empty elements = elements @ split_loop ss delim skip_empty []"
proof (induction "length ss" arbitrary: ss elements rule: less_induct)
  case less
  show ?case
  proof (cases "getline ss delim")
    case None
    then show ?thesis by (simp add: split_loop.simps)
  next
    case (Some p)
    obtain item rest where p: "p = (item, rest)" by (cases p)
    from Some p have g: "getline ss delim = Some (item, rest)" by simp
    then have shorter: "length rest < length ss" by (rule getline_shorter)
    have a: "split_loop rest delim skip_empty (elements @ [item])
             = elements @ [item] @ split_loop rest delim skip_empty []"
      using less[OF shorter, of "elements @ [item]"] by simp
    have b: "split_loop rest delim skip_empty [item]
             = [item] @ split_loop rest delim skip_empty []"
      using less[OF shorter, of "[item]"] by simp
    have c: "split_loop rest delim skip_empty elements
             = elements @ split_loop rest delim skip_empty []"
      using less[OF shorter, of elements] .
    have L: "split_loop ss delim skip_empty elements =
        (if item \<noteq> [] \<or> \<not> skip_empty then split_loop rest delim skip_empty (elements @ [item])
         else split_loop rest delim skip_empty elements)"
      by (subst split_loop.simps) (simp add: g)
    have R: "split_loop ss delim skip_empty [] =
        (if item \<noteq> [] \<or> \<not> skip_empty then split_loop rest delim skip_empty [item]
         else split_loop rest delim skip_empty [])"
      by (subst split_loop.simps) (simp add: g)
    show ?thesis unfolding L R a b c by simp
  qed
qed

lemma split_string_Nil: "split_string [] delim skip_empty = []"
  by (simp add: split_string_def split_loop.simps getline_Nil)

lemma split_string_token:
  "delim \<notin> set t \<Longrightarrow>
   split_string (t @ delim # s) delim skip_empty
     = (if t = [] \<and> skip_empty then [] else [t]) @ split_string s delim skip_empty"
  unfolding split_string_def
  by (subst split_loop.simps)
     (auto simp: getline_token split_loop_acc[of _ _ _ "[t]"] split_loop_acc[of _ _ _ "[[]]"])

lemma split_string_last:
  "delim \<notin> set t \<Longrightarrow> split_string t delim skip_empty = (if t = [] then [] else [t])"
  unfolding split_string_def
  by (subst split_loop.simps) (auto simp: getline_last getline_Nil split_loop.simps[of "[]"])

text \<open>Skipping is the same as splitting with the empty tokens and dropping them.\<close>

lemma split_string_skip_filter:
  "split_string s delim True = filter (\<lambda>t. t \<noteq> []) (split_string s delim False)"
proof (induction "length s" arbitrary: s rule: less_induct)
  case less
  show ?case
  proof (cases "delim \<in> set s")
    case False
    then show ?thesis by (simp add: split_string_last)
  next
    case True
    then obtain t r where s: "s = t @ delim # r" and t: "delim \<notin> set t"
      by (auto dest: split_list_first)
    have "length r < length s" using s by simp
    from less[OF this] show ?thesis using t by (simp add: s split_string_token)
  qed
qed

lemma split_string_leading:
  "split_string (delim # s) delim True = split_string s delim True"
  using split_string_token[of delim "[]" s True] by simp

lemma split_string_repeated:
  "split_string (a @ delim # delim # b) delim True = split_string (a @ delim # b) delim True"
proof (induction "length a" arbitrary: a rule: less_induct)
  case less
  show ?case
  proof (cases "delim \<in> set a")
    case False
    then show ?thesis by (simp add: split_string_token split_string_leading)
  next
    case True
    then obtain t r where a: "a = t @ delim # r" and t: "delim \<notin> set t"
      by (auto dest: split_list_first)
    have "length r < length a" using a by simp
    from less[OF this] show ?thesis using t by (simp add: a split_string_token)
  qed
qed

lemma split_string_trailing:
  "split_string (s @ [delim]) delim True = split_string s delim True"
proof (induction "length s" arbitrary: s rule: less_induct)
  case less
  show ?case
  proof (cases "delim \<in> set s")
    case False
    then show ?thesis by (simp add: split_string_token split_string_last split_string_Nil)
  next
    case True
    then obtain t r where s: "s = t @ delim # r" and t: "delim \<notin> set t"
      by (auto dest: split_list_first)
    have "length r < length s" using s by simp
    from less[OF this] show ?thesis using t by (simp add: s split_string_token)
  qed
qed

text \<open>With skipping, no token is empty and no token holds a delimiter.\<close>

lemma split_string_tokens:
  "t \<in> set (split_string s delim True) \<Longrightarrow> t \<noteq> [] \<and> delim \<notin> set t"
proof (induction "length s" arbitrary: s rule: less_induct)
  case less
  show ?case
  proof (cases "delim \<in> set s")
    case False
    with less.prems show ?thesis by (auto simp: split_string_last split: if_splits)
  next
    case True
    then obtain u r where s: "s = u @ delim # r" and u: "delim \<notin> set u"
      by (auto dest: split_list_first)
    have "length r < length s" using s by simp
    from less.hyps[OF this] less.prems u show ?thesis
      by (auto simp: s split_string_token split: if_splits)
  qed
qed

section \<open>The parser of sexagesimal angles\<close>

lemma parseDms_tokens_cong:
  "split_string a delim True = split_string b delim True \<Longrightarrow>
   parseDmsToDegrees stod a delim = parseDmsToDegrees stod b delim"
  by (simp add: parseDmsToDegrees_def)

lemma parseDms_three_tokens:
  "split_string dms delim True = [e0, e1, e2] \<Longrightarrow>
   parseDmsToDegrees stod dms delim =
     ebind (stod e0) (\<lambda>d. ebind (stod e1) (\<lambda>m. ebind (stod e2) (\<lambda>s.
       Inr (d + (m + s / 60) / 60))))"
  by (simp add: parseDmsToDegrees_def elem_def ebind_def)

lemma parseDms_two_tokens:
  "split_string dms delim True = [e0, e1] \<Longrightarrow>
   parseDmsToDegrees stod dms delim =
     ebind (stod e0) (\<lambda>d. ebind (stod e1) (\<lambda>m. Inl OutOfBounds))"
  by (simp add: parseDmsToDegrees_def elem_def ebind_def)

lemma parseDms_one_token:
  "split_string dms delim True = [e0] \<Longrightarrow>
   parseDmsToDegrees stod dms delim = ebind (stod e0) (\<lambda>d. Inl OutOfBounds)"
  by (simp add: parseDmsToDegrees_def elem_def ebind_def)

lemma parseDms_no_token:
  "split_string dms delim True = [] \<Longrightarrow> parseDmsToDegrees stod dms delim = Inl OutOfBounds"
  by (simp add: parseDmsToDegrees_def elem_def ebind_def)

lemma parseDms_more_tokens:
  "3 < length (split_string dms delim True) \<Longrightarrow>
   parseDmsToDegrees stod dms delim = Inl (LengthError ''Wrong input format'')"
  by (simp add: parseDmsToDegrees_def)

lemma split_string_example:
  "split_string ''10::30:00'' CHR '':'' True = [''10'', ''30'', ''00'']"
  by (simp add: split_string_def split_loop.simps getline_def)

text \<open>The literals of the spec, with a \<^verbatim>\<open>stod\<close> that reads the tokens in them.\<close>

lemma parseDms_example:
  "parseDmsToDegrees (\<lambda>t. if t = ''10'' then Inr 10 else if t = ''30'' then Inr 30 else Inr 0)
     ''10::30:00'' CHR '':'' = Inr (21 / 2)"
  by (simp add: parseDms_three_tokens[OF split_string_example] ebind_def)

lemma parseHms_example:
  "parseHmsToDegrees (\<lambda>t. if t = ''01'' then Inr 1 else Inr 0) ''01:00:00'' CHR '':'' = Inr 15"
  by (simp add: parseHmsToDegrees_def parseDmsToDegrees_def split_string_def split_loop.simps
      getline_def elem_def ebind_def)

text \<open>
  C9. \<^verbatim>\<open>parseDmsToDegrees\<close> and \<^verbatim>\<open>parseHmsToDegrees\<close> call the splitter with its
  default \<^verbatim>\<open>skip_empty = true\<close>: the tokens they count and combine are the non-empty
  ones, so a leading delimiter, a repeated delimiter and a trailing delimiter change
  nothing, and \<^verbatim>\<open>"10::30:00"\<close> is parsed from its three tokens 10, 30 and 00.
\<close>

theorem parseDms_drops_empty_tokens:
  "split_string s delim True = filter (\<lambda>t. t \<noteq> []) (split_string s delim False)
   \<and> parseDmsToDegrees stod (delim # s) delim = parseDmsToDegrees stod s delim
   \<and> parseDmsToDegrees stod (a @ delim # delim # b) delim
       = parseDmsToDegrees stod (a @ delim # b) delim
   \<and> parseDmsToDegrees stod (s @ [delim]) delim = parseDmsToDegrees stod s delim
   \<and> parseHmsToDegrees stod (delim # s) delim = parseHmsToDegrees stod s delim
   \<and> parseHmsToDegrees stod (a @ delim # delim # b) delim
       = parseHmsToDegrees stod (a @ delim # b) delim
   \<and> parseHmsToDegrees stod (s @ [delim]) delim = parseHmsToDegrees stod s delim
   \<and> parseDmsToDegrees stod ''10::30:00'' CHR '':'' =
       ebind (stod ''10'') (\<lambda>d. ebind (stod ''30'') (\<lambda>m. ebind (stod ''00'') (\<lambda>s.
         Inr (d + (m + s / 60) / 60))))"
proof -
  have lead: "parseDmsToDegrees stod (delim # s) delim = parseDmsToDegrees stod s delim"
    by (rule parseDms_tokens_cong) (rule split_string_leading)
  have rep: "parseDmsToDegrees stod (a @ delim # delim # b) delim
       = parseDmsToDegrees stod (a @ delim # b) delim"
    by (rule parseDms_tokens_cong) (rule split_string_repeated)
  have trail: "parseDmsToDegrees stod (s @ [delim]) delim = parseDmsToDegrees stod s delim"
    by (rule parseDms_tokens_cong) (rule split_string_trailing)
  have ex: "parseDmsToDegrees stod ''10::30:00'' CHR '':'' =
       ebind (stod ''10'') (\<lambda>d. ebind (stod ''30'') (\<lambda>m. ebind (stod ''00'') (\<lambda>s.
         Inr (d + (m + s / 60) / 60))))"
    by (rule parseDms_three_tokens) (rule split_string_example)
  show ?thesis
    using split_string_skip_filter[of s delim] lead rep trail ex
    by (simp add: parseHmsToDegrees_def)
qed

text \<open>
  C2. With fewer than three tokens \<^verbatim>\<open>parseDmsToDegrees\<close> returns no number: it reads
  \<^verbatim>\<open>elements[1]\<close> and \<^verbatim>\<open>elements[2]\<close> all the same, beyond the end of the vector.
  The result is an error of \<^verbatim>\<open>std::stod\<close> or the out-of-range read, never the
  one or two tokens combined.
\<close>

theorem parseDms_fewer_than_three_tokens:
  "length (split_string dms delim True) < 3 \<Longrightarrow>
   \<exists>e. parseDmsToDegrees stod dms delim = Inl e"
proof -
  assume short: "length (split_string dms delim True) < 3"
  let ?ts = "split_string dms delim True"
  consider "?ts = []" | e0 where "?ts = [e0]" | e0 e1 where "?ts = [e0, e1]"
  proof (cases ?ts)
    case Nil
    then show ?thesis using that by simp
  next
    case (Cons e0 r)
    show ?thesis
    proof (cases r)
      case Nil
      with Cons show ?thesis using that by simp
    next
      case (Cons e1 r')
      with \<open>?ts = e0 # r\<close> short have "?ts = [e0, e1]" by simp
      then show ?thesis using that by simp
    qed
  qed
  then show ?thesis
  proof cases
    case 1
    then show ?thesis by (simp add: parseDms_no_token)
  next
    case 2
    then show ?thesis
      by (cases "stod e0") (simp_all add: parseDms_one_token ebind_def)
  next
    case 3
    then show ?thesis
      by (cases "stod e0"; cases "stod e1") (simp_all add: parseDms_two_tokens ebind_def)
  qed
qed

theorem parseDms_two_tokens_example:
  "length (split_string ''10:30'' CHR '':'' True) < 3
   \<and> (\<exists>e. parseDmsToDegrees (\<lambda>t. if t = ''10'' then Inr 10 else Inr 30) ''10:30'' CHR '':''
            = Inl e)"
proof -
  have short: "length (split_string ''10:30'' CHR '':'' True) < 3"
    by (simp add: split_string_def split_loop.simps getline_def)
  from short parseDms_fewer_than_three_tokens[OF short] show ?thesis by blast
qed

lemma parseDms_one_token_example:
  "parseDmsToDegrees (\<lambda>t. Inr 10) ''10'' CHR '':'' = Inl OutOfBounds"
  by (simp add: parseDmsToDegrees_def split_string_def split_loop.simps getline_def
      elem_def ebind_def)

section \<open>Elementary rotations\<close>

lemma zero3: "replicate 3 (0::real) = [0, 0, 0]"
  by (simp add: numeral_3_eq_3)

lemma zero33: "replicate 3 (replicate 3 (0::real)) = [[0, 0, 0], [0, 0, 0], [0, 0, 0]]"
  by (simp add: numeral_3_eq_3)

lemma elementaryRotationMatrix_x:
  "axis = ''x'' \<or> axis = ''X'' \<Longrightarrow>
   elementaryRotationMatrix axis a = Inr [[1, 0, 0], [0, cos a, sin a], [0, - sin a, cos a]]"
  by (auto simp: elementaryRotationMatrix_def zero33 store2_def store1_def elem_def ebind_def
      numeral_2_eq_2)

lemma elementaryRotationMatrix_z:
  "axis = ''z'' \<or> axis = ''Z'' \<Longrightarrow>
   elementaryRotationMatrix axis a = Inr [[cos a, sin a, 0], [- sin a, cos a, 0], [0, 0, 1]]"
  by (auto simp: elementaryRotationMatrix_def zero33 store2_def store1_def elem_def ebind_def
      numeral_2_eq_2)

lemma elementaryRotationMatrix_y:
  "axis = ''y'' \<or> axis = ''Y'' \<Longrightarrow>
   elementaryRotationMatrix axis a = Inr [[cos a, 1, - sin a], [0, 1, 0], [sin a, 0, cos a]]"
  by (auto simp: elementaryRotationMatrix_def zero33 store2_def store1_def elem_def ebind_def
      numeral_2_eq_2)

text \<open>About x and about z the matrix is the conventional one.\<close>

lemma elementaryRotationMatrix_conventional_xz:
  "axis \<in> {''x'', ''X'', ''z'', ''Z''} \<Longrightarrow>
   elementaryRotationMatrix axis a = Inr (conventionalRotation axis a)"
  by (auto simp: elementaryRotationMatrix_x elementaryRotationMatrix_z conventionalRotation_def)

text \<open>
  C4. About y the matrix is not the conventional one: the assignment
  \<^verbatim>\<open>mat[0][1] = 1\<close> (line 283) puts a 1 where the second column of the identity has
  a 0, so the second column is \<open>(1, 1, 0)\<close> for every angle.
\<close>

theorem elementaryRotationMatrix_y_second_column:
  "axis = ''y'' \<or> axis = ''Y'' \<Longrightarrow>
   elementaryRotationMatrix axis a = Inr [[cos a, 1, - sin a], [0, 1, 0], [sin a, 0, cos a]]
   \<and> elementaryRotationMatrix axis a \<noteq> Inr (conventionalRotation axis a)"
  by (auto simp: elementaryRotationMatrix_y conventionalRotation_def)

theorem elementaryRotationMatrix_y_example:
  "elementaryRotationMatrix ''y'' 0 = Inr [[1, 1, 0], [0, 1, 0], [0, 0, 1]]
   \<and> elementaryRotationMatrix ''y'' 0 \<noteq> Inr (conventionalRotation ''y'' 0)"
  using elementaryRotationMatrix_y_second_column[of "''y''" 0] by (simp add: conventionalRotation_def)

text \<open>
  C3. For an axis that is none of x, X, y, Y, z, Z no branch is taken and no exception is
  thrown: the function returns the matrix of zeros it started from.
\<close>

theorem elementaryRotationMatrix_unknown_axis:
  "axis \<notin> {''x'', ''X'', ''y'', ''Y'', ''z'', ''Z''} \<Longrightarrow>
   elementaryRotationMatrix axis a = Inr [[0, 0, 0], [0, 0, 0], [0, 0, 0]]"
  by (simp add: elementaryRotationMatrix_def zero33)

theorem elementaryRotationMatrix_unknown_axis_example:
  "''w'' \<notin> {''x'', ''X'', ''y'', ''Y'', ''z'', ''Z''}
   \<and> elementaryRotationMatrix ''w'' 0 = Inr [[0, 0, 0], [0, 0, 0], [0, 0, 0]]"
  using elementaryRotationMatrix_unknown_axis[of "''w''" 0] by simp

section \<open>Spherical coordinates\<close>

lemma atan2_range: "- pi < atan2 y x \<and> atan2 y x \<le> pi"
proof -
  have b: "- (pi / 2) < arctan (y / x)" "arctan (y / x) < pi / 2"
    by (rule arctan_lbound, rule arctan_ubound)
  show ?thesis
  proof (cases "0 < x")
    case True
    then have "atan2 y x = arctan (y / x)" by (simp add: atan2_def)
    with b show ?thesis using pi_gt_zero by linarith
  next
    case False
    note nx = this
    show ?thesis
    proof (cases "x < 0")
      case True
      show ?thesis
      proof (cases "0 \<le> y")
        case True
        with \<open>x < 0\<close> have "y / x \<le> 0" by (simp add: divide_nonneg_neg)
        then have "arctan (y / x) \<le> 0" by simp
        moreover from True \<open>x < 0\<close> have "atan2 y x = arctan (y / x) + pi"
          by (simp add: atan2_def)
        ultimately show ?thesis using b pi_gt_zero by linarith
      next
        case False
        with \<open>x < 0\<close> have "0 < y / x" by (simp add: divide_neg_neg)
        then have "0 < arctan (y / x)" by simp
        moreover from False \<open>x < 0\<close> have "atan2 y x = arctan (y / x) - pi"
          by (simp add: atan2_def)
        ultimately show ?thesis using b pi_gt_zero by linarith
      qed
    next
      case False
      with nx have "x = 0" by simp
      then have "atan2 y x = pi / 2 \<or> atan2 y x = - (pi / 2) \<or> atan2 y x = 0"
        by (simp add: atan2_def)
      then show ?thesis using pi_gt_zero by linarith
    qed
  qed
qed

lemma sphericalToCartesian_value:
  "sphericalToCartesian r phi theta =
     Inr [r * cos phi * cos theta, r * sin phi * cos theta, r * sin theta]"
  by (simp add: sphericalToCartesian_def zero3 store1_def ebind_def numeral_2_eq_2 Let_def)

lemma cartesianToSpherical_value:
  "cartesianToSpherical D x y z =
     (if d_is_zero D (d_sqrt D (d_add D (d_add D (d_mul D x x) (d_mul D y y)) (d_mul D z z)))
      then Inl (RuntimeError ''Error: point is at distance zero.'')
      else Inr [d_sqrt D (d_add D (d_add D (d_mul D x x) (d_mul D y y)) (d_mul D z z)),
                d_atan2 D y x,
                d_atan2 D z (d_sqrt D (d_add D (d_mul D x x) (d_mul D y y)))])"
  by (simp add: cartesianToSpherical_def store1_def ebind_def numeral_3_eq_3 numeral_2_eq_2
      Let_def)

lemma cartesianToSpherical_exact_value:
  "cartesianToSpherical exact_arith x y z =
     (if sqrt (x * x + y * y + z * z) = 0
      then Inl (RuntimeError ''Error: point is at distance zero.'')
      else Inr [sqrt (x * x + y * y + z * z), atan2 y x, atan2 z (sqrt (x * x + y * y))])"
  by (simp add: cartesianToSpherical_value exact_arith_def)

text \<open>In exact arithmetic the guard is the test for the origin.\<close>

lemma cartesianToSpherical_exact:
  "((cartesianToSpherical exact_arith x y z
       = Inl (RuntimeError ''Error: point is at distance zero.''))
      = (sqrt (x * x + y * y + z * z) = 0))
   \<and> ((\<exists>e. cartesianToSpherical exact_arith x y z = Inl e)
      = (sqrt (x * x + y * y + z * z) = 0))
   \<and> (sqrt (x * x + y * y + z * z) \<noteq> 0 \<longrightarrow>
        cartesianToSpherical exact_arith x y z =
          Inr [sqrt (x * x + y * y + z * z), atan2 y x, atan2 z (sqrt (x * x + y * y))])
   \<and> - pi < atan2 y x \<and> atan2 y x \<le> pi"
  using atan2_range[of y x] by (simp add: cartesianToSpherical_exact_value)

text \<open>Rounding to a double: what is below half of the smallest double becomes 0.\<close>

lemma round_even_small: "0 \<le> x \<Longrightarrow> x < 1 / 2 \<Longrightarrow> round_even x = 0"
proof -
  assume x: "0 \<le> x" "x < 1 / 2"
  then have "\<lfloor>x\<rfloor> = 0" by (simp add: floor_eq_iff)
  with x show ?thesis by (simp add: round_even_def)
qed


lemma round64_underflow:
  assumes "0 \<le> x" "x < 1 / 2 ^ 1075"
  shows "round64 x = 0"
proof -
  have "(1::real) / 2 ^ 1075 < 1 / 2 ^ 1022"
    by (simp add: divide_strict_left_mono power_strict_increasing)
  with assms have small: "\<bar>x\<bar> < 1 / 2 ^ 1022" by simp
  have "x * 2 ^ 1074 < (1 / 2 ^ 1075) * 2 ^ 1074"
    using assms(2) by (simp add: mult_strict_right_mono)
  also have "(1 / 2 ^ 1075) * 2 ^ 1074 = (1::real) / 2"
    by (simp add: power_Suc[symmetric, of 2 1074] del: power_Suc)
  finally have "x * 2 ^ 1074 < 1 / 2" .
  moreover have "0 \<le> x * 2 ^ 1074" using assms(1) by simp
  ultimately have "round_even (x * 2 ^ 1074) = 0" by (simp add: round_even_small)
  with small show ?thesis by (simp add: round64_def)
qed

lemma round64_0: "round64 0 = 0"
  by (rule round64_underflow) simp_all


lemma cartesianToSpherical_binary64_origin:
  "cartesianToSpherical binary64_arith 0 0 0
     = Inl (RuntimeError ''Error: point is at distance zero.'')"
  by (simp add: cartesianToSpherical_value binary64_arith_def round64_0)




section \<open>Round trips in exact arithmetic\<close>

text \<open>
  The model computes with real numbers. There the conversion to Cartesian coordinates and
  back is the identity for a longitude in \<open>(-pi, pi]\<close> and a latitude strictly between
  the poles; at a pole the Cartesian vector is \<open>(0, 0, 1)\<close> whatever the longitude
  was, and the longitude that comes back is \<open>atan2 0 0 = 0\<close>. What the doubles of the
  source do near the poles depends on their rounding (the cosine of the double next to
  \<open>pi / 2\<close> is not 0) and is outside this model.
\<close>

lemma cos_nonpos_upper:
  assumes "pi / 2 \<le> t" "t \<le> pi"
  shows "cos t \<le> 0"
proof -
  have "cos t \<le> cos (pi / 2)"
    using assms pi_gt_zero by (intro cos_monotone_0_pi_le) simp_all
  then show ?thesis by simp
qed

lemma cos_pos_range:
  assumes "- pi < t" "t \<le> pi" "0 < cos t"
  shows "- (pi / 2) < t \<and> t < pi / 2"
proof -
  have "\<not> pi / 2 \<le> t"
    using cos_nonpos_upper[of t] assms by auto
  moreover have "\<not> t \<le> - (pi / 2)"
    using cos_nonpos_upper[of "- t"] assms by auto
  ultimately show ?thesis by simp
qed

lemma cos_neg_range:
  assumes "cos t < 0"
  shows "t < - (pi / 2) \<or> pi / 2 < t"
  using assms cos_ge_zero[of t] by fastforce

lemma cos_zero_range:
  assumes "- pi < t" "t \<le> pi" "cos t = 0"
  shows "t = - (pi / 2) \<or> t = pi / 2"
proof (cases "0 \<le> t")
  case True
  with assms have "arccos (cos t) = t" by (intro arccos_cos)
  moreover have "arccos (cos t) = pi / 2" unfolding assms(3) by (rule arccos_0)
  ultimately show ?thesis by simp
next
  case False
  with assms have "arccos (cos (- t)) = - t" by (intro arccos_cos) simp_all
  moreover have "arccos (cos (- t)) = pi / 2" unfolding cos_minus assms(3) by (rule arccos_0)
  ultimately show ?thesis by simp
qed

lemma sin_neg_range:
  assumes "- pi < t" "t < 0"
  shows "sin t < 0"
  using sin_gt_zero[of "- t"] assms by simp

lemma atan2_sin_cos:
  assumes t: "- pi < t" "t \<le> pi" and c: "0 < c"
  shows "atan2 (c * sin t) (c * cos t) = t"
proof -
  consider "0 < cos t" | "cos t < 0" "pi / 2 < t" | "cos t < 0" "t < - (pi / 2)" | "cos t = 0"
    using cos_neg_range[of t] by fastforce
  then show ?thesis
  proof cases
    case 1
    with c have "atan2 (c * sin t) (c * cos t) = arctan (tan t)"
      by (simp add: atan2_def tan_def)
    also from 1 cos_pos_range[OF t] have "arctan (tan t) = t" by (simp add: arctan_tan)
    finally show ?thesis .
  next
    case 2
    with t have s: "0 \<le> sin t" by (intro sin_ge_zero) simp_all
    from 2 c have x: "c * cos t < 0" by (simp add: mult_less_0_iff)
    from s c have y: "0 \<le> c * sin t" by simp
    from x y c have "atan2 (c * sin t) (c * cos t) = arctan (tan t) + pi"
      by (simp add: atan2_def tan_def)
    moreover from 2 t have "arctan (tan (t - pi)) = t - pi" by (intro arctan_tan) simp_all
    moreover have "tan (t - pi) = tan t" using tan_periodic_pi[of "t - pi"] by simp
    ultimately show ?thesis by simp
  next
    case 3
    with t have s: "sin t < 0" by (intro sin_neg_range) simp_all
    from 3 c have x: "c * cos t < 0" by (simp add: mult_less_0_iff)
    from s c have y: "\<not> 0 \<le> c * sin t" by (simp add: mult_less_0_iff not_le)
    from x y c have "atan2 (c * sin t) (c * cos t) = arctan (tan t) - pi"
      by (simp add: atan2_def tan_def)
    moreover from 3 t have "arctan (tan (t + pi)) = t + pi" by (intro arctan_tan) simp_all
    ultimately show ?thesis by simp
  next
    case 4
    from cos_zero_range[OF t 4] show ?thesis
    proof
      assume e: "t = - (pi / 2)"
      show ?thesis unfolding e using c by (simp add: atan2_def)
    next
      assume e: "t = pi / 2"
      show ?thesis unfolding e using c by (simp add: atan2_def)
    qed
  qed
qed


lemma atan2_tan:
  assumes "- (pi / 2) < t" "t < pi / 2" "0 < c"
  shows "atan2 (c * sin t) (c * cos t) = t"
  using assms pi_gt_zero by (intro atan2_sin_cos) simp_all

lemma round_trip_exact:
  assumes phi: "- pi < phi" "phi \<le> pi" and theta: "- (pi / 2) < theta" "theta < pi / 2"
  shows "round_trip phi theta = Inr [1, phi, theta]"
proof -
  from theta have c: "0 < cos theta" by (simp add: cos_gt_zero_pi)
  have cyl: "cos phi * cos theta * (cos phi * cos theta) + sin phi * cos theta * (sin phi * cos theta)
        = (cos theta)\<^sup>2"
    using sin_cos_squared_add[of phi] by algebra
  have r: "(cos theta)\<^sup>2 + sin theta * sin theta = 1"
    by (simp add: power2_eq_square[symmetric])
  have a: "atan2 (sin phi * cos theta) (cos phi * cos theta) = phi"
    using atan2_sin_cos[OF phi c] by (simp add: mult.commute)
  have b: "atan2 (sin theta) \<bar>cos theta\<bar> = theta"
    using atan2_tan[OF theta zero_less_one] c by simp
  show ?thesis
    unfolding round_trip_def sphericalToCartesian_value
    by (simp add: elem_def ebind_def cartesianToSpherical_exact_value r cyl a b)
qed

text \<open>At the pole the longitude is lost, also through a transformation with any constants.\<close>

lemma sphericalToCartesian_pole: "sphericalToCartesian r phi (pi / 2) = Inr [0, 0, r]"
  by (simp add: sphericalToCartesian_value)

lemma round_trip_pole: "round_trip phi (pi / 2) = Inr [1, 0, pi / 2]"
  unfolding round_trip_def sphericalToCartesian_pole
  by (simp add: elem_def ebind_def cartesianToSpherical_exact_value atan2_def)

lemma apply_transformation_pole:
  "apply_transformation K name phi 90 True = apply_transformation K name phi' 90 True"
  by (simp add: apply_transformation_def radians_def sphericalToCartesian_value)

section \<open>Loops\<close>

lemma for_loop_done: "n \<le> i \<Longrightarrow> for_loop i n body s = Inr s"
  by (subst for_loop.simps) simp

lemma for_loop_step:
  "i < n \<Longrightarrow> for_loop i n body s = ebind (body i s) (for_loop (Suc i) n body)"
  by (subst for_loop.simps) (simp add: ebind_def)

lemma for_loop_split:
  "lo \<le> mid \<Longrightarrow> mid \<le> n \<Longrightarrow>
   for_loop lo n body s = ebind (for_loop lo mid body s) (for_loop mid n body)"
proof (induction "mid - lo" arbitrary: lo s)
  case 0
  then show ?case by (simp add: for_loop_done ebind_def)
next
  case (Suc d)
  then have lt: "lo < mid" "lo < n" and d: "d = mid - Suc lo" and le: "Suc lo \<le> mid"
    by simp_all
  show ?case
  proof (cases "body lo s")
    case (Inl e)
    then show ?thesis using lt by (simp add: for_loop_step ebind_def)
  next
    case (Inr s')
    from Suc.hyps(1)[OF d le Suc.prems(2), of s'] Inr lt
    show ?thesis by (simp add: for_loop_step ebind_def)
  qed
qed

lemma for_loop_invariant:
  assumes "I lo s" and "lo \<le> n"
    and step: "\<And>i s. i < n \<Longrightarrow> I i s \<Longrightarrow> \<exists>s'. body i s = Inr s' \<and> I (Suc i) s'"
  shows "\<exists>s'. for_loop lo n body s = Inr s' \<and> I n s'"
  using assms(1,2)
proof (induction "n - lo" arbitrary: lo s)
  case 0
  then show ?case by (simp add: for_loop_done)
next
  case (Suc d)
  then have lt: "lo < n" and d: "d = n - Suc lo" by simp_all
  from step[OF lt Suc.prems(1)] obtain s1 where s1: "body lo s = Inr s1" "I (Suc lo) s1"
    by blast
  from lt have "Suc lo \<le> n" by simp
  from Suc.hyps(1)[OF d s1(2) this] s1(1) lt show ?case
    by (simp add: for_loop_step ebind_def)
qed

section \<open>The matrix product\<close>

lemma is_matrix_nth: "is_matrix A m n \<Longrightarrow> i < m \<Longrightarrow> length (A ! i) = n"
  by (simp add: is_matrix_def list_all_length)

lemma is_matrix_length: "is_matrix A m n \<Longrightarrow> length A = m"
  by (simp add: is_matrix_def)

lemma is_matrix_replicate: "is_matrix (replicate p (replicate m 0)) p m"
  by (simp add: is_matrix_def list_all_length)

lemma elem2_in:
  "is_matrix A m n \<Longrightarrow> i < m \<Longrightarrow> j < n \<Longrightarrow> elem2 A i j = Inr (A ! i ! j)"
  by (simp add: elem2_def elem_def ebind_def is_matrix_def list_all_length)

lemma elem2_out:
  "is_matrix A m n \<Longrightarrow> \<not> (i < m \<and> j < n) \<Longrightarrow> elem2 A i j = Inl OutOfBounds"
  by (auto simp: elem2_def elem_def ebind_def is_matrix_def list_all_length)

lemma store2_in:
  "is_matrix C p m \<Longrightarrow> i < p \<Longrightarrow> j < m \<Longrightarrow>
   store2 C i j x = Inr (C[i := (C ! i)[j := x]])"
  by (simp add: store2_def store1_def elem_def ebind_def is_matrix_def list_all_length)

lemma is_matrix_update:
  "is_matrix C p m \<Longrightarrow> i < p \<Longrightarrow> is_matrix (C[i := (C ! i)[j := x]]) p m"
  by (auto simp: is_matrix_def list_all_length nth_list_update)

lemma dot_mm_update_in:
  assumes "is_matrix A mA nA" "is_matrix B nA nB" "is_matrix C p m"
    and "i < mA" "k < nA" "j < nB" "i < p" "j < m"
  shows "dot_mm_update A B i j k C =
           Inr (C[i := (C ! i)[j := C ! i ! j + A ! i ! k * B ! k ! j]])"
  using assms by (simp add: dot_mm_update_def elem2_in store2_in ebind_def)

lemma dot_mm_update_out:
  assumes "is_matrix A mA nA" "is_matrix B nA nB" "is_matrix C p m"
    and "i < mA" "k < nA" "j < nB" "\<not> (i < p \<and> j < m)"
  shows "dot_mm_update A B i j k C = Inl OutOfBounds"
  using assms by (simp add: dot_mm_update_def elem2_in elem2_out ebind_def)


lemma dot_entry_0: "dot_entry A B i j 0 = 0"
  by (simp add: dot_entry_def)

lemma dot_entry_Suc: "dot_entry A B i j (Suc k) = dot_entry A B i j k + A ! i ! k * B ! k ! j"
  by (simp add: dot_entry_def)

lemma update_entry:
  "is_matrix C p m \<Longrightarrow> i < p \<Longrightarrow> j < m \<Longrightarrow> i' < p \<Longrightarrow> j' < m \<Longrightarrow>
   C[i := (C ! i)[j := x]] ! i' ! j' = (if i' = i \<and> j' = j then x else C ! i' ! j')"
  by (simp add: is_matrix_def list_all_length nth_list_update)

lemma dot_mm_k_loop:
  assumes A: "is_matrix A mA nA" and B: "is_matrix B nA nB" and C: "is_matrix C p m"
    and i: "i < mA" "i < p" and j: "j < nB" "j < m"
  shows "\<exists>C'. for_loop 0 nA (\<lambda>k. dot_mm_update A B i j k) C = Inr C' \<and> is_matrix C' p m \<and>
           (\<forall>i'<p. \<forall>j'<m. C' ! i' ! j' =
              C ! i' ! j' + (if i' = i \<and> j' = j then dot_entry A B i j nA else 0))"
proof (rule for_loop_invariant[where I = "\<lambda>k C'. is_matrix C' p m \<and>
           (\<forall>i'<p. \<forall>j'<m. C' ! i' ! j' =
              C ! i' ! j' + (if i' = i \<and> j' = j then dot_entry A B i j k else 0))"])
  show "is_matrix C p m \<and> (\<forall>i'<p. \<forall>j'<m. C ! i' ! j' =
              C ! i' ! j' + (if i' = i \<and> j' = j then dot_entry A B i j 0 else 0))"
    using C by (simp add: dot_entry_0)
  show "0 \<le> nA" by simp
next
  fix k C'
  assume k: "k < nA"
    and inv: "is_matrix C' p m \<and> (\<forall>i'<p. \<forall>j'<m. C' ! i' ! j' =
              C ! i' ! j' + (if i' = i \<and> j' = j then dot_entry A B i j k else 0))"
  then have C': "is_matrix C' p m" by simp
  let ?x = "C' ! i ! j + A ! i ! k * B ! k ! j"
  let ?C = "C'[i := (C' ! i)[j := ?x]]"
  have run: "dot_mm_update A B i j k C' = Inr ?C"
    using A B C' i j k by (simp add: dot_mm_update_in)
  have shape: "is_matrix ?C p m"
    using C' i by (simp add: is_matrix_update)
  have "\<forall>i'<p. \<forall>j'<m. ?C ! i' ! j' =
              C ! i' ! j' + (if i' = i \<and> j' = j then dot_entry A B i j (Suc k) else 0)"
    using inv i j by (simp add: update_entry[OF C'] dot_entry_Suc)
  with run shape
  show "\<exists>s'. dot_mm_update A B i j k C' = Inr s' \<and> (is_matrix s' p m \<and>
           (\<forall>i'<p. \<forall>j'<m. s' ! i' ! j' =
              C ! i' ! j' + (if i' = i \<and> j' = j then dot_entry A B i j (Suc k) else 0)))"
    by blast
qed

lemma dot_mm_j_loop:
  assumes A: "is_matrix A mA nA" and B: "is_matrix B nA nB" and C: "is_matrix C p m"
    and i: "i < mA" "i < p" and jn: "jn \<le> nB" "jn \<le> m"
  shows "\<exists>C'. for_loop 0 jn (\<lambda>j. for_loop 0 nA (\<lambda>k. dot_mm_update A B i j k)) C = Inr C'
           \<and> is_matrix C' p m \<and>
           (\<forall>i'<p. \<forall>j'<m. C' ! i' ! j' =
              C ! i' ! j' + (if i' = i \<and> j' < jn then dot_entry A B i j' nA else 0))"
proof (rule for_loop_invariant[where I = "\<lambda>j C'. is_matrix C' p m \<and>
           (\<forall>i'<p. \<forall>j'<m. C' ! i' ! j' =
              C ! i' ! j' + (if i' = i \<and> j' < j then dot_entry A B i j' nA else 0))"])
  show "is_matrix C p m \<and> (\<forall>i'<p. \<forall>j'<m. C ! i' ! j' =
              C ! i' ! j' + (if i' = i \<and> j' < 0 then dot_entry A B i j' nA else 0))"
    using C by simp
  show "0 \<le> jn" by simp
next
  fix j C'
  assume j: "j < jn"
    and inv: "is_matrix C' p m \<and> (\<forall>i'<p. \<forall>j'<m. C' ! i' ! j' =
              C ! i' ! j' + (if i' = i \<and> j' < j then dot_entry A B i j' nA else 0))"
  then have C': "is_matrix C' p m" by simp
  from j jn have j': "j < nB" "j < m" by simp_all
  from dot_mm_k_loop[OF A B C' i j'] obtain D where
    run: "for_loop 0 nA (\<lambda>k. dot_mm_update A B i j k) C' = Inr D" and D: "is_matrix D p m"
    and entries: "\<forall>i'<p. \<forall>j'<m. D ! i' ! j' =
              C' ! i' ! j' + (if i' = i \<and> j' = j then dot_entry A B i j nA else 0)"
    by blast
  have "\<forall>i'<p. \<forall>j'<m. D ! i' ! j' =
              C ! i' ! j' + (if i' = i \<and> j' < Suc j then dot_entry A B i j' nA else 0)"
    using inv entries by (auto simp: less_Suc_eq)
  with run D
  show "\<exists>s'. for_loop 0 nA (\<lambda>k. dot_mm_update A B i j k) C' = Inr s' \<and> (is_matrix s' p m \<and>
           (\<forall>i'<p. \<forall>j'<m. s' ! i' ! j' =
              C ! i' ! j' + (if i' = i \<and> j' < Suc j then dot_entry A B i j' nA else 0)))"
    by blast
qed

lemma dot_mm_i_loop:
  assumes A: "is_matrix A mA nA" and B: "is_matrix B nA nB" and C: "is_matrix C p m"
    and n: "n \<le> mA" "n \<le> p" and nB: "nB \<le> m"
  shows "\<exists>C'. for_loop 0 n (\<lambda>i. for_loop 0 nB (\<lambda>j.
                 for_loop 0 nA (\<lambda>k. dot_mm_update A B i j k))) C = Inr C'
           \<and> is_matrix C' p m \<and>
           (\<forall>i'<p. \<forall>j'<m. C' ! i' ! j' =
              C ! i' ! j' + (if i' < n \<and> j' < nB then dot_entry A B i' j' nA else 0))"
proof (rule for_loop_invariant[where I = "\<lambda>i C'. is_matrix C' p m \<and>
           (\<forall>i'<p. \<forall>j'<m. C' ! i' ! j' =
              C ! i' ! j' + (if i' < i \<and> j' < nB then dot_entry A B i' j' nA else 0))"])
  show "is_matrix C p m \<and> (\<forall>i'<p. \<forall>j'<m. C ! i' ! j' =
              C ! i' ! j' + (if i' < 0 \<and> j' < nB then dot_entry A B i' j' nA else 0))"
    using C by simp
  show "0 \<le> n" by simp
next
  fix i C'
  assume i: "i < n"
    and inv: "is_matrix C' p m \<and> (\<forall>i'<p. \<forall>j'<m. C' ! i' ! j' =
              C ! i' ! j' + (if i' < i \<and> j' < nB then dot_entry A B i' j' nA else 0))"
  then have C': "is_matrix C' p m" by simp
  from i n have i': "i < mA" "i < p" by simp_all
  from dot_mm_j_loop[OF A B C' i' order_refl nB] obtain D where
    run: "for_loop 0 nB (\<lambda>j. for_loop 0 nA (\<lambda>k. dot_mm_update A B i j k)) C' = Inr D"
    and D: "is_matrix D p m"
    and entries: "\<forall>i'<p. \<forall>j'<m. D ! i' ! j' =
              C' ! i' ! j' + (if i' = i \<and> j' < nB then dot_entry A B i j' nA else 0)"
    by blast
  have "\<forall>i'<p. \<forall>j'<m. D ! i' ! j' =
              C ! i' ! j' + (if i' < Suc i \<and> j' < nB then dot_entry A B i' j' nA else 0)"
    using inv entries by (auto simp: less_Suc_eq)
  with run D
  show "\<exists>s'. for_loop 0 nB (\<lambda>j. for_loop 0 nA (\<lambda>k. dot_mm_update A B i j k)) C' = Inr s'
         \<and> (is_matrix s' p m \<and>
           (\<forall>i'<p. \<forall>j'<m. s' ! i' ! j' =
              C ! i' ! j' + (if i' < Suc i \<and> j' < nB then dot_entry A B i' j' nA else 0)))"
    by blast
qed


lemma dot_mm_loops:
  assumes A: "is_matrix A mA nA" and B: "is_matrix B nA nB" and pos: "0 < mA" "0 < nA"
  shows "dot_mm A B =
           for_loop 0 mA (\<lambda>i. for_loop 0 nB (\<lambda>j.
             for_loop 0 nA (\<lambda>k. dot_mm_update A B i j k))) (replicate nB (replicate mA 0))"
proof -
  have "elem A 0 = Inr (A ! 0)" "length (A ! 0) = nA" "length A = mA"
    using A pos by (simp_all add: elem_def is_matrix_def list_all_length)
  moreover have "elem B 0 = Inr (B ! 0)" "length (B ! 0) = nB" "length B = nA"
    using B pos by (simp_all add: elem_def is_matrix_def list_all_length)
  ultimately show ?thesis
    by (simp add: dot_mm_def ebind_def)
qed

lemma dot_mm_mismatch:
  assumes A: "is_matrix A mA nA" and B: "is_matrix B mB nB" and pos: "0 < mA" "0 < mB"
    and ne: "nA \<noteq> mB"
  shows "dot_mm A B = Inl (LengthError ''Illegal matrix dimensions.'')"
proof -
  have "elem A 0 = Inr (A ! 0)" "length (A ! 0) = nA"
    using A pos by (simp_all add: elem_def is_matrix_def list_all_length)
  moreover have "elem B 0 = Inr (B ! 0)" "length B = mB"
    using B pos by (simp_all add: elem_def is_matrix_def list_all_length)
  ultimately show ?thesis
    using ne by (simp add: dot_mm_def ebind_def)
qed

lemma matrix_product_entries:
  assumes C: "is_matrix C mA nB" and B: "is_matrix B nA nB" and A: "length A = mA"
    and pos: "0 < nA"
    and entries: "\<forall>i<mA. \<forall>j<nB. C ! i ! j = dot_entry A B i j nA"
  shows "C = matrix_product A B"
proof (rule nth_equalityI)
  have lB: "length B = nA" "length (B ! 0) = nB"
    using B pos by (simp_all add: is_matrix_def list_all_length)
  show "length C = length (matrix_product A B)"
    using C A by (simp add: matrix_product_def is_matrix_def)
  fix i assume "i < length C"
  then have i: "i < mA" using C by (simp add: is_matrix_def)
  have len: "length (C ! i) = nB" using C i by (rule is_matrix_nth)
  have "C ! i = map (\<lambda>j. \<Sum>k<nA. A ! i ! k * B ! k ! j) [0..<nB]"
  proof (rule nth_equalityI)
    show "length (C ! i) = length (map (\<lambda>j. \<Sum>k<nA. A ! i ! k * B ! k ! j) [0..<nB])"
      using len by simp
    fix j assume "j < length (C ! i)"
    then have "j < nB" using len by simp
    with entries i show "C ! i ! j = map (\<lambda>j. \<Sum>k<nA. A ! i ! k * B ! k ! j) [0..<nB] ! j"
      by (simp add: dot_entry_def)
  qed
  then show "C ! i = matrix_product A B ! i"
    using i A lB by (simp add: matrix_product_def)
qed

lemma dot_mm_square:
  assumes A: "is_matrix A m nA" and B: "is_matrix B nA m" and pos: "0 < m" "0 < nA"
  shows "dot_mm A B = Inr (matrix_product A B)"
proof -
  let ?C = "replicate m (replicate m (0::real))"
  have C: "is_matrix ?C m m" by (rule is_matrix_replicate)
  from dot_mm_i_loop[OF A B C order_refl order_refl order_refl] obtain C' where
    run: "for_loop 0 m (\<lambda>i. for_loop 0 m (\<lambda>j.
            for_loop 0 nA (\<lambda>k. dot_mm_update A B i j k))) ?C = Inr C'"
    and C': "is_matrix C' m m"
    and entries: "\<forall>i'<m. \<forall>j'<m. C' ! i' ! j' =
        ?C ! i' ! j' + (if i' < m \<and> j' < m then dot_entry A B i' j' nA else 0)"
    by blast
  from entries have e: "\<forall>i<m. \<forall>j<m. C' ! i ! j = dot_entry A B i j nA"
    by simp
  have "C' = matrix_product A B"
    by (rule matrix_product_entries[OF C' B is_matrix_length[OF A] pos(2) e])
  with run show ?thesis
    by (simp add: dot_mm_loops[OF A B pos])
qed

text \<open>More columns in \<open>B\<close> than rows in \<open>A\<close>: the first row of \<open>C\<close> is too short.\<close>

lemma dot_mm_wide:
  assumes A: "is_matrix A mA nA" and B: "is_matrix B nA nB" and pos: "0 < mA" "0 < nA"
    and wide: "mA < nB"
  shows "dot_mm A B = Inl OutOfBounds"
proof -
  let ?C = "replicate nB (replicate mA (0::real))"
  let ?J = "\<lambda>j. for_loop 0 nA (\<lambda>k. dot_mm_update A B 0 j k)"
  have C: "is_matrix ?C nB mA" by (rule is_matrix_replicate)
  from wide pos have p: "0 < nB" "mA \<le> nB" by simp_all
  from dot_mm_j_loop[OF A B C pos(1) p(1) p(2) order_refl] obtain C' where
    run: "for_loop 0 mA ?J ?C = Inr C'" and C': "is_matrix C' nB mA"
    by blast
  have "dot_mm_update A B 0 mA 0 C' = Inl OutOfBounds"
    using A B C' pos wide by (simp add: dot_mm_update_out)
  then have "?J mA C' = Inl OutOfBounds"
    using pos by (simp add: for_loop_step ebind_def)
  then have "for_loop mA nB ?J C' = Inl OutOfBounds"
    using wide by (simp add: for_loop_step ebind_def)
  with run have "for_loop 0 nB ?J ?C = Inl OutOfBounds"
    using for_loop_split[of 0 mA nB ?J ?C] p by (simp add: ebind_def)
  then show ?thesis
    using pos by (simp add: dot_mm_loops[OF A B pos] for_loop_step ebind_def)
qed

text \<open>Fewer columns in \<open>B\<close> than rows in \<open>A\<close>: \<open>C\<close> has too few rows.\<close>

lemma dot_mm_tall:
  assumes A: "is_matrix A mA nA" and B: "is_matrix B nA nB" and pos: "0 < nB" "0 < nA"
    and tall: "nB < mA"
  shows "dot_mm A B = Inl OutOfBounds"
proof -
  let ?C = "replicate nB (replicate mA (0::real))"
  let ?I = "\<lambda>i. for_loop 0 nB (\<lambda>j. for_loop 0 nA (\<lambda>k. dot_mm_update A B i j k))"
  have C: "is_matrix ?C nB mA" by (rule is_matrix_replicate)
  from tall have le: "nB \<le> mA" and mA: "0 < mA" by simp_all
  from dot_mm_i_loop[OF A B C le order_refl le] obtain C' where
    run: "for_loop 0 nB ?I ?C = Inr C'" and C': "is_matrix C' nB mA"
    by blast
  have "dot_mm_update A B nB 0 0 C' = Inl OutOfBounds"
    using A B C' pos tall by (simp add: dot_mm_update_out)
  then have "for_loop 0 nA (\<lambda>k. dot_mm_update A B nB 0 k) C' = Inl OutOfBounds"
    using pos by (simp add: for_loop_step ebind_def)
  then have "?I nB C' = Inl OutOfBounds"
    using pos by (simp add: for_loop_step ebind_def)
  then have "for_loop nB mA ?I C' = Inl OutOfBounds"
    using tall by (simp add: for_loop_step ebind_def)
  with run have "for_loop 0 mA ?I ?C = Inl OutOfBounds"
    using for_loop_split[of 0 nB mA ?I ?C] le by (simp add: ebind_def)
  then show ?thesis
    by (simp add: dot_mm_loops[OF A B mA pos(2)])
qed

text \<open>No column in \<open>B\<close>: \<open>C\<close> has no row, and no statement of the loops runs.\<close>

lemma dot_mm_no_column:
  assumes A: "is_matrix A mA nA" and B: "is_matrix B nA 0" and pos: "0 < mA" "0 < nA"
  shows "dot_mm A B = Inr []"
proof -
  let ?I = "\<lambda>i. for_loop 0 0 (\<lambda>j. for_loop 0 nA (\<lambda>k. dot_mm_update A B i j k))"
  have "\<exists>s'. for_loop 0 mA ?I [] = Inr s' \<and> s' = []"
    by (rule for_loop_invariant[where I = "\<lambda>i s. s = []"]) (simp_all add: for_loop_done)
  then show ?thesis
    by (simp add: dot_mm_loops[OF A B pos])
qed

text \<open>
  C5. For well-formed matrices \<open>A\<close> (\<open>mA\<close> by \<open>nA\<close>) and \<open>B\<close> (\<open>mB\<close> by \<open>nB\<close>) with at
  least one row each, \<^verbatim>\<open>dot(A, B)\<close> throws the length error exactly when \<open>nA\<close> differs
  from \<open>mB\<close>. When the inner dimensions agree it returns the standard product exactly
  when the result is square (\<open>mA = nB\<close>): the result \<open>C\<close> is allocated with \<open>nB\<close> rows of
  \<open>mA\<close> entries and indexed as \<open>mA\<close> rows of \<open>nB\<close> entries, so for any other shape with a
  column in \<open>B\<close> an index leaves \<open>C\<close>.
\<close>

theorem dot_mm_product_iff_square:
  assumes A: "is_matrix A mA nA" and B: "is_matrix B mB nB" and pos: "0 < mA" "0 < mB"
  shows "((dot_mm A B = Inl (LengthError ''Illegal matrix dimensions.'')) = (nA \<noteq> mB))
    \<and> (nA = mB \<longrightarrow> (dot_mm A B = Inr (matrix_product A B)) = (mA = nB))
    \<and> (nA = mB \<longrightarrow> mA \<noteq> nB \<longrightarrow> 0 < nB \<longrightarrow> dot_mm A B = Inl OutOfBounds)"
proof (cases "nA = mB")
  case False
  with dot_mm_mismatch[OF A B pos] show ?thesis by simp
next
  case True
  note B' = B[folded True]
  from pos True have nA: "0 < nA" by simp
  consider "mA = nB" | "mA < nB" | "nB < mA" "0 < nB" | "nB = 0"
    by linarith
  then show ?thesis
  proof cases
    case 1
    with dot_mm_square[of A mA nA B] A B' pos nA True show ?thesis by simp
  next
    case 2
    with dot_mm_wide[OF A B' pos(1) nA] True show ?thesis by simp
  next
    case 3
    with dot_mm_tall[OF A B' _ nA] True show ?thesis by simp
  next
    case 4
    with dot_mm_no_column[of A mA nA B] A B' pos nA True
    have "dot_mm A B = Inr []" by simp
    moreover have "matrix_product A B \<noteq> []"
      using A pos by (simp add: matrix_product_def is_matrix_def)
    ultimately show ?thesis using 4 pos True by auto
  qed
qed

text \<open>
  The failing input: a 1 by 1 matrix times a 1 by 2 matrix, whose product is the 1 by 2
  matrix \<open>[[1, 2]]\<close>.
\<close>

theorem dot_mm_not_square_example:
  "is_matrix [[1]] 1 1 \<and> is_matrix [[1, 2]] 1 2 \<and> (0::nat) < 1
   \<and> dot_mm [[1]] [[1, 2]] = Inl OutOfBounds
   \<and> matrix_product [[1]] [[1, 2]] = [[1, 2]]"
proof -
  have A: "is_matrix [[1]] 1 1" and B: "is_matrix [[1, 2]] 1 2"
    by (simp_all add: is_matrix_def)
  have p: "(0::nat) < 1" by simp
  have "dot_mm [[1]] [[1, 2]] = Inl OutOfBounds"
    using dot_mm_product_iff_square[OF A B p p] by simp
  moreover have "matrix_product [[1]] [[1, 2]] = [[1, 2]]"
    by (simp add: matrix_product_def numeral_2_eq_2)
  ultimately show ?thesis using A B by simp
qed

section \<open>Transposition and the products with a vector\<close>

text \<open>
  The other operations of the algebra layer allocate their results as they index them:
  on well-formed arguments with at least one row they return the transposed matrix and
  the standard products.
\<close>

lemma transpose_j_loop:
  assumes A: "is_matrix A m n" and C: "is_matrix C n m" and i: "i < m"
  shows "\<exists>C'. for_loop 0 n (\<lambda>j C. ebind (elem2 A i j) (\<lambda>a. store2 C j i a)) C = Inr C'
           \<and> is_matrix C' n m \<and>
           (\<forall>j'<n. \<forall>i'<m. C' ! j' ! i' = (if i' = i then A ! i ! j' else C ! j' ! i'))"
proof -
  have "\<exists>C'. for_loop 0 n (\<lambda>j C. ebind (elem2 A i j) (\<lambda>a. store2 C j i a)) C = Inr C'
           \<and> (is_matrix C' n m \<and>
           (\<forall>j'<n. \<forall>i'<m. C' ! j' ! i' = (if i' = i \<and> j' < n then A ! i ! j' else C ! j' ! i')))"
  proof (rule for_loop_invariant[where I = "\<lambda>j C'. is_matrix C' n m \<and>
           (\<forall>j'<n. \<forall>i'<m. C' ! j' ! i' = (if i' = i \<and> j' < j then A ! i ! j' else C ! j' ! i'))"])
    show "is_matrix C n m \<and>
           (\<forall>j'<n. \<forall>i'<m. C ! j' ! i' = (if i' = i \<and> j' < 0 then A ! i ! j' else C ! j' ! i'))"
      using C by simp
    show "0 \<le> n" by simp
  next
    fix j C'
    assume j: "j < n"
      and inv: "is_matrix C' n m \<and>
           (\<forall>j'<n. \<forall>i'<m. C' ! j' ! i' = (if i' = i \<and> j' < j then A ! i ! j' else C ! j' ! i'))"
    then have C': "is_matrix C' n m" by simp
    let ?C = "C'[j := (C' ! j)[i := A ! i ! j]]"
    have run: "ebind (elem2 A i j) (\<lambda>a. store2 C' j i a) = Inr ?C"
      using A C' i j by (simp add: elem2_in store2_in ebind_def)
    have shape: "is_matrix ?C n m"
      using C' j by (simp add: is_matrix_update)
    have "\<forall>j'<n. \<forall>i'<m. ?C ! j' ! i' =
              (if i' = i \<and> j' < Suc j then A ! i ! j' else C ! j' ! i')"
      using inv i j by (auto simp: update_entry[OF C'] less_Suc_eq)
    with run shape
    show "\<exists>s'. ebind (elem2 A i j) (\<lambda>a. store2 C' j i a) = Inr s' \<and> (is_matrix s' n m \<and>
           (\<forall>j'<n. \<forall>i'<m. s' ! j' ! i' =
              (if i' = i \<and> j' < Suc j then A ! i ! j' else C ! j' ! i')))"
      by blast
  qed
  then show ?thesis by auto
qed

lemma transpose_va_correct:
  assumes A: "is_matrix A m n" and pos: "0 < m"
  shows "transpose_va A = Inr (map (\<lambda>j. map (\<lambda>i. A ! i ! j) [0..<m]) [0..<n])"
proof -
  let ?C = "replicate n (replicate m (0::real))"
  let ?body = "\<lambda>i. for_loop 0 n (\<lambda>j C. ebind (elem2 A i j) (\<lambda>a. store2 C j i a))"
  have C: "is_matrix ?C n m" by (rule is_matrix_replicate)
  have "\<exists>C'. for_loop 0 m ?body ?C = Inr C' \<and> (is_matrix C' n m \<and>
           (\<forall>j'<n. \<forall>i'<m. C' ! j' ! i' = (if i' < m then A ! i' ! j' else ?C ! j' ! i')))"
  proof (rule for_loop_invariant[where I = "\<lambda>i C'. is_matrix C' n m \<and>
           (\<forall>j'<n. \<forall>i'<m. C' ! j' ! i' = (if i' < i then A ! i' ! j' else ?C ! j' ! i'))"])
    show "is_matrix ?C n m \<and>
           (\<forall>j'<n. \<forall>i'<m. ?C ! j' ! i' = (if i' < 0 then A ! i' ! j' else ?C ! j' ! i'))"
      using C by simp
    show "0 \<le> m" by simp
  next
    fix i C'
    assume i: "i < m"
      and inv: "is_matrix C' n m \<and>
           (\<forall>j'<n. \<forall>i'<m. C' ! j' ! i' = (if i' < i then A ! i' ! j' else ?C ! j' ! i'))"
    then have C': "is_matrix C' n m" by simp
    from transpose_j_loop[OF A C' i] obtain D where
      run: "?body i C' = Inr D" and D: "is_matrix D n m"
      and entries: "\<forall>j'<n. \<forall>i'<m. D ! j' ! i' = (if i' = i then A ! i ! j' else C' ! j' ! i')"
      by blast
    have "\<forall>j'<n. \<forall>i'<m. D ! j' ! i' = (if i' < Suc i then A ! i' ! j' else ?C ! j' ! i')"
      using inv entries by (auto simp: less_Suc_eq)
    with run D
    show "\<exists>s'. ?body i C' = Inr s' \<and> (is_matrix s' n m \<and>
           (\<forall>j'<n. \<forall>i'<m. s' ! j' ! i' = (if i' < Suc i then A ! i' ! j' else ?C ! j' ! i')))"
      by blast
  qed
  then obtain C' where run: "for_loop 0 m ?body ?C = Inr C'" and C': "is_matrix C' n m"
    and entries: "\<forall>j'<n. \<forall>i'<m. C' ! j' ! i' = A ! i' ! j'"
    by auto
  have "C' = map (\<lambda>j. map (\<lambda>i. A ! i ! j) [0..<m]) [0..<n]"
  proof (rule nth_equalityI)
    show "length C' = length (map (\<lambda>j. map (\<lambda>i. A ! i ! j) [0..<m]) [0..<n])"
      using C' by (simp add: is_matrix_def)
    fix j assume "j < length C'"
    then have j: "j < n" using C' by (simp add: is_matrix_def)
    have "C' ! j = map (\<lambda>i. A ! i ! j) [0..<m]"
      using entries j is_matrix_nth[OF C' j] by (intro nth_equalityI) simp_all
    with j show "C' ! j = map (\<lambda>j. map (\<lambda>i. A ! i ! j) [0..<m]) [0..<n] ! j"
      by simp
  qed
  moreover have "elem A 0 = Inr (A ! 0)" "length (A ! 0) = n" "length A = m"
    using A pos by (simp_all add: elem_def is_matrix_def list_all_length)
  ultimately show ?thesis
    using run by (simp add: transpose_va_def ebind_def)
qed


lemma dot_mv_j_loop:
  assumes A: "is_matrix A m n" and x: "length x = n" and y: "length y = m" and i: "i < m"
  shows "\<exists>y'. for_loop 0 n (\<lambda>j y. ebind (elem2 A i j) (\<lambda>a. ebind (elem x j) (\<lambda>xj.
                 ebind (elem y i) (\<lambda>yi. store1 y i (yi + a * xj))))) y = Inr y'
           \<and> length y' = m \<and>
           (\<forall>i'<m. y' ! i' = y ! i' + (if i' = i then (\<Sum>j<n. A ! i ! j * x ! j) else 0))"
proof (rule for_loop_invariant[where I = "\<lambda>j y'. length y' = m \<and>
           (\<forall>i'<m. y' ! i' = y ! i' + (if i' = i then (\<Sum>j'<j. A ! i ! j' * x ! j') else 0))"])
  show "length y = m \<and>
           (\<forall>i'<m. y ! i' = y ! i' + (if i' = i then (\<Sum>j'<0. A ! i ! j' * x ! j') else 0))"
    using y by simp
  show "0 \<le> n" by simp
next
  fix j y'
  assume j: "j < n"
    and inv: "length y' = m \<and>
           (\<forall>i'<m. y' ! i' = y ! i' + (if i' = i then (\<Sum>j'<j. A ! i ! j' * x ! j') else 0))"
  let ?y = "y'[i := y' ! i + A ! i ! j * x ! j]"
  have run: "ebind (elem2 A i j) (\<lambda>a. ebind (elem x j) (\<lambda>xj.
                 ebind (elem y' i) (\<lambda>yi. store1 y' i (yi + a * xj)))) = Inr ?y"
    using A x inv i j by (simp add: elem2_in elem_def store1_def ebind_def)
  have "\<forall>i'<m. ?y ! i' = y ! i' + (if i' = i then (\<Sum>j'<Suc j. A ! i ! j' * x ! j') else 0)"
    using inv i by (simp add: nth_list_update)
  with run inv
  show "\<exists>s'. ebind (elem2 A i j) (\<lambda>a. ebind (elem x j) (\<lambda>xj.
                 ebind (elem y' i) (\<lambda>yi. store1 y' i (yi + a * xj)))) = Inr s' \<and>
          (length s' = m \<and>
           (\<forall>i'<m. s' ! i' = y ! i' + (if i' = i then (\<Sum>j'<Suc j. A ! i ! j' * x ! j') else 0)))"
    by simp
qed

lemma dot_mv_correct:
  assumes A: "is_matrix A m n" and x: "length x = n" and pos: "0 < m"
  shows "dot_mv A x = Inr (map (\<lambda>i. \<Sum>j<n. A ! i ! j * x ! j) [0..<m])"
proof -
  let ?y = "replicate m (0::real)"
  let ?body = "\<lambda>i. for_loop 0 n (\<lambda>j y. ebind (elem2 A i j) (\<lambda>a. ebind (elem x j) (\<lambda>xj.
                 ebind (elem y i) (\<lambda>yi. store1 y i (yi + a * xj)))))"
  have "\<exists>y'. for_loop 0 m ?body ?y = Inr y' \<and> (length y' = m \<and>
           (\<forall>i'<m. y' ! i' = (if i' < m then (\<Sum>j<n. A ! i' ! j * x ! j) else 0)))"
  proof (rule for_loop_invariant[where I = "\<lambda>i y'. length y' = m \<and>
           (\<forall>i'<m. y' ! i' = (if i' < i then (\<Sum>j<n. A ! i' ! j * x ! j) else 0))"])
    show "length ?y = m \<and>
           (\<forall>i'<m. ?y ! i' = (if i' < 0 then (\<Sum>j<n. A ! i' ! j * x ! j) else 0))"
      by simp
    show "0 \<le> m" by simp
  next
    fix i y'
    assume i: "i < m"
      and inv: "length y' = m \<and>
           (\<forall>i'<m. y' ! i' = (if i' < i then (\<Sum>j<n. A ! i' ! j * x ! j) else 0))"
    then have y': "length y' = m" by simp
    from dot_mv_j_loop[OF A x y' i] obtain z where
      run: "?body i y' = Inr z" and z: "length z = m"
      and entries: "\<forall>i'<m. z ! i' = y' ! i' + (if i' = i then (\<Sum>j<n. A ! i ! j * x ! j) else 0)"
      by blast
    have "\<forall>i'<m. z ! i' = (if i' < Suc i then (\<Sum>j<n. A ! i' ! j * x ! j) else 0)"
      using inv entries by (auto simp: less_Suc_eq)
    with run z
    show "\<exists>s'. ?body i y' = Inr s' \<and> (length s' = m \<and>
           (\<forall>i'<m. s' ! i' = (if i' < Suc i then (\<Sum>j<n. A ! i' ! j * x ! j) else 0)))"
      by blast
  qed
  then obtain y' where run: "for_loop 0 m ?body ?y = Inr y'" and y': "length y' = m"
    and entries: "\<forall>i'<m. y' ! i' = (\<Sum>j<n. A ! i' ! j * x ! j)"
    by auto
  have "y' = map (\<lambda>i. \<Sum>j<n. A ! i ! j * x ! j) [0..<m]"
    using y' entries by (intro nth_equalityI) simp_all
  moreover have "elem A 0 = Inr (A ! 0)" "length (A ! 0) = n" "length A = m"
    using A pos by (simp_all add: elem_def is_matrix_def list_all_length)
  ultimately show ?thesis
    using run x by (simp add: dot_mv_def ebind_def)
qed

lemma dot_mv_mismatch:
  assumes A: "is_matrix A m n" and x: "length x \<noteq> n" and pos: "0 < m"
  shows "dot_mv A x = Inl (LengthError ''Illegal matrix dimensions.'')"
proof -
  have "elem A 0 = Inr (A ! 0)" "length (A ! 0) = n"
    using A pos by (simp_all add: elem_def is_matrix_def list_all_length)
  then show ?thesis using x by (simp add: dot_mv_def ebind_def)
qed


lemma dot_vv_correct:
  assumes len: "length x = length y"
  shows "dot_vv x y = Inr (\<Sum>i<length x. x ! i * y ! i)"
proof -
  let ?body = "\<lambda>i sum. ebind (elem x i) (\<lambda>xi. ebind (elem y i) (\<lambda>yi. Inr (sum + xi * yi)))"
  have "\<exists>s. for_loop 0 (length x) ?body 0 = Inr s \<and> s = (\<Sum>i<length x. x ! i * y ! i)"
    using len
    by (intro for_loop_invariant[where I = "\<lambda>i s. s = (\<Sum>i'<i. x ! i' * y ! i')"])
       (simp_all add: elem_def ebind_def)
  then show ?thesis using len by (simp add: dot_vv_def)
qed

lemma dot_vv_mismatch:
  "length x \<noteq> length y \<Longrightarrow> dot_vv x y = Inl (LengthError ''Illegal vector dimensions.'')"
  by (simp add: dot_vv_def)

lemma dot_vm_i_loop:
  assumes A: "is_matrix A m n" and x: "length x = m" and y: "length y = n" and j: "j < n"
  shows "\<exists>y'. for_loop 0 m (\<lambda>i y. ebind (elem2 A i j) (\<lambda>a. ebind (elem x i) (\<lambda>xi.
                 ebind (elem y j) (\<lambda>yj. store1 y j (yj + a * xi))))) y = Inr y'
           \<and> length y' = n \<and>
           (\<forall>j'<n. y' ! j' = y ! j' + (if j' = j then (\<Sum>i<m. A ! i ! j * x ! i) else 0))"
proof (rule for_loop_invariant[where I = "\<lambda>i y'. length y' = n \<and>
           (\<forall>j'<n. y' ! j' = y ! j' + (if j' = j then (\<Sum>i'<i. A ! i' ! j * x ! i') else 0))"])
  show "length y = n \<and>
           (\<forall>j'<n. y ! j' = y ! j' + (if j' = j then (\<Sum>i'<0. A ! i' ! j * x ! i') else 0))"
    using y by simp
  show "0 \<le> m" by simp
next
  fix i y'
  assume i: "i < m"
    and inv: "length y' = n \<and>
           (\<forall>j'<n. y' ! j' = y ! j' + (if j' = j then (\<Sum>i'<i. A ! i' ! j * x ! i') else 0))"
  let ?y = "y'[j := y' ! j + A ! i ! j * x ! i]"
  have run: "ebind (elem2 A i j) (\<lambda>a. ebind (elem x i) (\<lambda>xi.
                 ebind (elem y' j) (\<lambda>yj. store1 y' j (yj + a * xi)))) = Inr ?y"
    using A x inv i j by (simp add: elem2_in elem_def store1_def ebind_def)
  have "\<forall>j'<n. ?y ! j' = y ! j' + (if j' = j then (\<Sum>i'<Suc i. A ! i' ! j * x ! i') else 0)"
    using inv j by (simp add: nth_list_update)
  with run inv
  show "\<exists>s'. ebind (elem2 A i j) (\<lambda>a. ebind (elem x i) (\<lambda>xi.
                 ebind (elem y' j) (\<lambda>yj. store1 y' j (yj + a * xi)))) = Inr s' \<and>
          (length s' = n \<and>
           (\<forall>j'<n. s' ! j' = y ! j' + (if j' = j then (\<Sum>i'<Suc i. A ! i' ! j * x ! i') else 0)))"
    by simp
qed

lemma dot_vm_correct:
  assumes A: "is_matrix A m n" and x: "length x = m" and pos: "0 < m"
  shows "dot_vm x A = Inr (map (\<lambda>j. \<Sum>i<m. A ! i ! j * x ! i) [0..<n])"
proof -
  let ?y = "replicate n (0::real)"
  let ?body = "\<lambda>j. for_loop 0 m (\<lambda>i y. ebind (elem2 A i j) (\<lambda>a. ebind (elem x i) (\<lambda>xi.
                 ebind (elem y j) (\<lambda>yj. store1 y j (yj + a * xi)))))"
  have "\<exists>y'. for_loop 0 n ?body ?y = Inr y' \<and> (length y' = n \<and>
           (\<forall>j'<n. y' ! j' = (if j' < n then (\<Sum>i<m. A ! i ! j' * x ! i) else 0)))"
  proof (rule for_loop_invariant[where I = "\<lambda>j y'. length y' = n \<and>
           (\<forall>j'<n. y' ! j' = (if j' < j then (\<Sum>i<m. A ! i ! j' * x ! i) else 0))"])
    show "length ?y = n \<and>
           (\<forall>j'<n. ?y ! j' = (if j' < 0 then (\<Sum>i<m. A ! i ! j' * x ! i) else 0))"
      by simp
    show "0 \<le> n" by simp
  next
    fix j y'
    assume j: "j < n"
      and inv: "length y' = n \<and>
           (\<forall>j'<n. y' ! j' = (if j' < j then (\<Sum>i<m. A ! i ! j' * x ! i) else 0))"
    then have y': "length y' = n" by simp
    from dot_vm_i_loop[OF A x y' j] obtain z where
      run: "?body j y' = Inr z" and z: "length z = n"
      and entries: "\<forall>j'<n. z ! j' = y' ! j' + (if j' = j then (\<Sum>i<m. A ! i ! j * x ! i) else 0)"
      by blast
    have "\<forall>j'<n. z ! j' = (if j' < Suc j then (\<Sum>i<m. A ! i ! j' * x ! i) else 0)"
      using inv entries by (auto simp: less_Suc_eq)
    with run z
    show "\<exists>s'. ?body j y' = Inr s' \<and> (length s' = n \<and>
           (\<forall>j'<n. s' ! j' = (if j' < Suc j then (\<Sum>i<m. A ! i ! j' * x ! i) else 0)))"
      by blast
  qed
  then obtain y' where run: "for_loop 0 n ?body ?y = Inr y'" and y': "length y' = n"
    and entries: "\<forall>j'<n. y' ! j' = (\<Sum>i<m. A ! i ! j' * x ! i)"
    by auto
  have "y' = map (\<lambda>j. \<Sum>i<m. A ! i ! j * x ! i) [0..<n]"
    using y' entries by (intro nth_equalityI) simp_all
  moreover have "elem A 0 = Inr (A ! 0)" "length (A ! 0) = n" "length A = m"
    using A pos by (simp_all add: elem_def is_matrix_def list_all_length)
  ultimately show ?thesis
    using run x by (simp add: dot_vm_def ebind_def)
qed

section \<open>The names of the transformations\<close>

lemma toupper_idem: "toupper (toupper c) = toupper c"
proof (cases "(97::nat) \<le> of_char c \<and> of_char c \<le> (122::nat)")
  case True
  define d where "d = char_of ((of_char c :: nat) - 32)"
  from True have "(of_char c :: nat) - 32 < 256" by arith
  then have "((of_char c :: nat) - 32) mod 256 = of_char c - 32" by (rule mod_less)
  then have "(of_char d :: nat) = of_char c - 32"
    by (simp add: d_def)
  with True have "\<not> ((97::nat) \<le> of_char d \<and> of_char d \<le> (122::nat))"
    by arith
  then have "toupper d = d" by (auto simp: toupper_def)
  moreover from True have "toupper c = d" by (simp add: toupper_def d_def)
  ultimately show ?thesis by simp
next
  case False
  then have "toupper c = c" by (auto simp: toupper_def)
  then show ?thesis by simp
qed

lemma get_rotationMatrix_upper:
  "get_rotationMatrix K (map toupper name) = get_rotationMatrix K name"
  by (simp add: get_rotationMatrix_def toupper_idem o_def)

lemma get_rotationMatrix_unknown:
  "map toupper name \<notin> {''GAL2ICRS'', ''ICRS2GAL'', ''ECL2ICRS'', ''ICRS2ECL'', ''GAL2ECL'', ''ECL2GAL''}
   \<Longrightarrow> get_rotationMatrix K name = Inl (RuntimeError ''Connot find this transformation name'')"
  by (simp add: get_rotationMatrix_def)

lemma apply_transformation_unknown:
  "get_rotationMatrix K name = Inl e \<Longrightarrow> apply_transformation K name phi theta use_degrees = Inl e"
  by (simp add: apply_transformation_def sphericalToCartesian_value ebind_def)

lemma apply_transformation_upper:
  "apply_transformation K (map toupper name) phi theta use_degrees
     = apply_transformation K name phi theta use_degrees"
  by (simp add: apply_transformation_def get_rotationMatrix_upper)

text \<open>Once the name is resolved, the rest is the pipeline on the matrix found.\<close>

lemma apply_transformation_resolved:
  "get_rotationMatrix K name = Inr mat \<Longrightarrow>
   apply_transformation K name phi theta use_degrees = transform_with mat phi theta use_degrees"
  by (simp add: apply_transformation_def transform_with_def sphericalToCartesian_value
      cartesianToSpherical_exact_value elem_def store1_def ebind_def numeral_2_eq_2
      split: sum.splits)

lemma apply_transformation_resolves_step:
  assumes "P \<longrightarrow> get_rotationMatrix K name = Inr mat"
  shows "P \<longrightarrow> get_rotationMatrix K name = Inr mat
           \<and> apply_transformation K name phi theta use_degrees
               = transform_with mat phi theta use_degrees"
proof
  assume P
  with assms have g: "get_rotationMatrix K name = Inr mat" by simp
  from g apply_transformation_resolved[OF g]
  show "get_rotationMatrix K name = Inr mat
           \<and> apply_transformation K name phi theta use_degrees
               = transform_with mat phi theta use_degrees"
    by (rule conjI)
qed

text \<open>
  The pipeline on a 3 by 3 matrix, in radians: the spherical coordinates of the product
  of the matrix and the unit vector of \<open>(phi, theta)\<close>.
\<close>

lemma transform_with_value:
  assumes M: "is_matrix M 3 3"
  shows "transform_with M phi theta False =
     (let v = [cos phi * cos theta, sin phi * cos theta, sin theta];
          w = map (\<lambda>i. \<Sum>j<3. M ! i ! j * v ! j) [0..<3]
      in ebind (cartesianToSpherical exact_arith (w ! 0) (w ! 1) (w ! 2))
           (\<lambda>rab. Inr [rab ! 1, rab ! 2]))"
proof -
  have "dot_mv M [cos phi * cos theta, sin phi * cos theta, sin theta] =
      Inr (map (\<lambda>i. \<Sum>j<3. M ! i ! j *
        [cos phi * cos theta, sin phi * cos theta, sin theta] ! j) [0..<3])"
    by (rule dot_mv_correct[OF M]) simp_all
  then show ?thesis
    by (simp add: transform_with_def sphericalToCartesian_value Let_def elem_def ebind_def
        cartesianToSpherical_exact_value numeral_3_eq_3)
qed

text \<open>
  C8. The name is compared in upper case, so its case does not matter; each of the six
  names selects its own constant, and \<^verbatim>\<open>apply_transformation\<close> then is the pipeline on
  that constant; any other name makes \<^verbatim>\<open>_get_rotationMatrix\<close>, and with it
  \<^verbatim>\<open>apply_transformation\<close>, throw the runtime error
  "Connot find this transformation name": there is no default.
\<close>

theorem apply_transformation_resolves_name:
  "get_rotationMatrix K (map toupper name) = get_rotationMatrix K name
   \<and> apply_transformation K (map toupper name) phi theta use_degrees
       = apply_transformation K name phi theta use_degrees
   \<and> (map toupper name = ''GAL2ICRS'' \<longrightarrow>
        get_rotationMatrix K name = Inr (rotationMatrixGalacticToIcrs K)
        \<and> apply_transformation K name phi theta use_degrees
            = transform_with (rotationMatrixGalacticToIcrs K) phi theta use_degrees)
   \<and> (map toupper name = ''ICRS2GAL'' \<longrightarrow>
        get_rotationMatrix K name = Inr (rotationMatrixIcrsToGalactic K)
        \<and> apply_transformation K name phi theta use_degrees
            = transform_with (rotationMatrixIcrsToGalactic K) phi theta use_degrees)
   \<and> (map toupper name = ''ECL2ICRS'' \<longrightarrow>
        get_rotationMatrix K name = Inr (rotationMatrixEclipticToIcrs K)
        \<and> apply_transformation K name phi theta use_degrees
            = transform_with (rotationMatrixEclipticToIcrs K) phi theta use_degrees)
   \<and> (map toupper name = ''ICRS2ECL'' \<longrightarrow>
        get_rotationMatrix K name = Inr (rotationMatrixIcrsToEcliptic K)
        \<and> apply_transformation K name phi theta use_degrees
            = transform_with (rotationMatrixIcrsToEcliptic K) phi theta use_degrees)
   \<and> (map toupper name = ''GAL2ECL'' \<longrightarrow>
        get_rotationMatrix K name = Inr (rotationMatrixGalacticToEcliptic K)
        \<and> apply_transformation K name phi theta use_degrees
            = transform_with (rotationMatrixGalacticToEcliptic K) phi theta use_degrees)
   \<and> (map toupper name = ''ECL2GAL'' \<longrightarrow>
        get_rotationMatrix K name = Inr (rotationMatrixEclipticToGalactic K)
        \<and> apply_transformation K name phi theta use_degrees
            = transform_with (rotationMatrixEclipticToGalactic K) phi theta use_degrees)
   \<and> (map toupper name \<notin>
        {''GAL2ICRS'', ''ICRS2GAL'', ''ECL2ICRS'', ''ICRS2ECL'', ''GAL2ECL'', ''ECL2GAL''} \<longrightarrow>
        get_rotationMatrix K name = Inl (RuntimeError ''Connot find this transformation name'')
        \<and> apply_transformation K name phi theta use_degrees
            = Inl (RuntimeError ''Connot find this transformation name''))"
proof -
  have known: "map toupper name = ''GAL2ICRS'' \<longrightarrow>
        get_rotationMatrix K name = Inr (rotationMatrixGalacticToIcrs K)"
    "map toupper name = ''ICRS2GAL'' \<longrightarrow>
        get_rotationMatrix K name = Inr (rotationMatrixIcrsToGalactic K)"
    "map toupper name = ''ECL2ICRS'' \<longrightarrow>
        get_rotationMatrix K name = Inr (rotationMatrixEclipticToIcrs K)"
    "map toupper name = ''ICRS2ECL'' \<longrightarrow>
        get_rotationMatrix K name = Inr (rotationMatrixIcrsToEcliptic K)"
    "map toupper name = ''GAL2ECL'' \<longrightarrow>
        get_rotationMatrix K name = Inr (rotationMatrixGalacticToEcliptic K)"
    "map toupper name = ''ECL2GAL'' \<longrightarrow>
        get_rotationMatrix K name = Inr (rotationMatrixEclipticToGalactic K)"
    by (simp_all add: get_rotationMatrix_def)
  have unknown: "map toupper name \<notin>
        {''GAL2ICRS'', ''ICRS2GAL'', ''ECL2ICRS'', ''ICRS2ECL'', ''GAL2ECL'', ''ECL2GAL''} \<longrightarrow>
        get_rotationMatrix K name = Inl (RuntimeError ''Connot find this transformation name'')
        \<and> apply_transformation K name phi theta use_degrees
            = Inl (RuntimeError ''Connot find this transformation name'')"
    using get_rotationMatrix_unknown[of name K] apply_transformation_unknown[of K name]
    by blast
  note step = apply_transformation_resolves_step[of _ K name _ phi theta use_degrees]
  show ?thesis
    using get_rotationMatrix_upper[of K name] apply_transformation_upper[of K name]
      step[OF known(1)] step[OF known(2)] step[OF known(3)]
      step[OF known(4)] step[OF known(5)] step[OF known(6)] unknown
    by (intro conjI)
qed

text \<open>
  On the sample constants: \<^verbatim>\<open>"icrs2Gal"\<close> turns the point \<open>(0, 0)\<close> by the constant of
  ICRS2GAL to \<open>(-90, 0)\<close>, and \<^verbatim>\<open>"icrs"\<close> is no name.
\<close>

theorem apply_transformation_resolves_name_example:
  "map toupper ''icrs2Gal'' = ''ICRS2GAL''
   \<and> get_rotationMatrix sample_matrices ''icrs2Gal''
       = Inr [[0, 1, 0], [- 1, 0, 0], [0, 0, 1]]
   \<and> apply_transformation sample_matrices ''icrs2Gal'' 0 0 True = Inr [- 90, 0]
   \<and> map toupper ''icrs'' \<notin>
        {''GAL2ICRS'', ''ICRS2GAL'', ''ECL2ICRS'', ''ICRS2ECL'', ''GAL2ECL'', ''ECL2GAL''}
   \<and> apply_transformation sample_matrices ''icrs'' 10 20 True
       = Inl (RuntimeError ''Connot find this transformation name'')"
proof -
  have u1: "map toupper ''icrs2Gal'' = ''ICRS2GAL''"
    by code_simp
  have "map toupper ''icrs'' = ''ICRS''"
    by code_simp
  then have u2: "map toupper ''icrs'' \<notin>
        {''GAL2ICRS'', ''ICRS2GAL'', ''ECL2ICRS'', ''ICRS2ECL'', ''GAL2ECL'', ''ECL2GAL''}"
    by (simp del: list.map)
  note known = apply_transformation_resolves_name[of sample_matrices "''icrs2Gal''" 0 0 True,
      THEN conjunct2, THEN conjunct2, THEN conjunct2, THEN conjunct1]
  note unknown = apply_transformation_resolves_name[of sample_matrices "''icrs''" 10 20 True,
      THEN conjunct2, THEN conjunct2, THEN conjunct2, THEN conjunct2, THEN conjunct2,
      THEN conjunct2, THEN conjunct2, THEN conjunct2]
  have d: "dot_mv [[0, 1, 0], [- 1, 0, 0], [0, 0, 1]] [1, 0, 0] = Inr [0, - 1, 0]"
    by (simp add: dot_mv_def for_loop.simps elem2_def elem_def store1_def ebind_def
        numeral_3_eq_3 numeral_2_eq_2)
  have t: "transform_with [[0, 1, 0], [- 1, 0, 0], [0, 0, 1]] 0 0 True = Inr [- 90, 0]"
    by (simp add: transform_with_def sphericalToCartesian_value d radians_def degrees_def
        cartesianToSpherical_exact_value atan2_def elem_def ebind_def)
  from known[THEN mp, OF u1]
  have r1: "get_rotationMatrix sample_matrices ''icrs2Gal''
       = Inr [[0, 1, 0], [- 1, 0, 0], [0, 0, 1]]"
    and r1': "apply_transformation sample_matrices ''icrs2Gal'' 0 0 True = Inr [- 90, 0]"
    by (simp_all add: sample_matrices_def t del: list.map)
  have r2: "apply_transformation sample_matrices ''icrs'' 10 20 True
       = Inl (RuntimeError ''Connot find this transformation name'')"
    using unknown[THEN mp, OF u2] by (rule conjunct2)
  show ?thesis
    using u1 r1 r1' u2 r2 by (intro conjI)
qed

section \<open>Matrices without rows\<close>

text \<open>
  C10. \<^verbatim>\<open>transpose\<close> and the three overloads of \<^verbatim>\<open>dot\<close> that take a matrix read
  \<^verbatim>\<open>A[0]\<close> (and \<^verbatim>\<open>B[0]\<close>) for the number of columns before any check of the
  dimensions: on a matrix without rows the read is out of range, whatever the other
  argument is, and no length error is thrown.
\<close>

theorem zero_rows_out_of_bounds:
  "transpose_va [] = Inl OutOfBounds
   \<and> dot_mm [] B = Inl OutOfBounds
   \<and> dot_mm A [] = Inl OutOfBounds
   \<and> dot_mv [] x = Inl OutOfBounds
   \<and> dot_vm x [] = Inl OutOfBounds"
  by (simp add: transpose_va_def dot_mm_def dot_mv_def dot_vm_def elem_def ebind_def
      split: sum.splits)

end
